theory Spec2Isabelle
  imports Complex_Main "HOL-Library.Multiset" "HOL-Library.Product_Lexorder" "HOL-Library.Log_Nat"
begin

section \<open>The performance command of the plugin tooling (\<open>src/unnamed/part_000\<close>)\<close>

text \<open>
  The file embeds the JavaScript module that runs the performance suites on several git
  refs and prints a comparison table: the statistics helpers \<open>average\<close>, \<open>median\<close>
  and \<open>formatTime\<close>, \<open>curateResults\<close>, \<open>runTestSuite\<close> and the stages of
  \<open>runPerformanceTests\<close>.
\<close>

subsection \<open>JavaScript numbers\<close>

text \<open>
  A JavaScript number is a binary64 value: a finite one, one of the two infinities or
  \<open>NaN\<close>. A finite value is given by the real number it denotes. An arithmetic
  operation on finite values computes the exact real result and rounds it to the
  nearest binary64 value, a tie going to the even significand (\<open>round64\<close>). The
  sign of zero is not modelled: \<open>-0\<close> and \<open>0\<close>, equal under \<open>===\<close>, are the one
  value \<open>Fin 0\<close>. The divisors of this program are an array length, \<open>2\<close> and
  \<open>100\<close>, so a zero divisor is always the positive zero.
\<close>

datatype jsnum = Fin real | PosInf | NegInf | NaN

text \<open>\<open>pow2 e\<close> is 2 to the power of the integer \<open>e\<close>.\<close>

definition pow2 :: "int \<Rightarrow> real" where
  "pow2 e = (if 0 \<le> e then 2 ^ nat e else 1 / 2 ^ nat (- e))"

text \<open>
  \<open>binade x\<close> is the integer \<open>e\<close> with \<open>pow2 e \<le> |x| < pow2 (e + 1)\<close>, for
  \<open>x\<close> other than zero, computed from the number of bits of an integer. The exponent
  of a binary64 value is at least \<open>-1022\<close>: below, the values are subnormal and
  share the exponent \<open>-1022\<close>.
\<close>

definition binade :: "real \<Rightarrow> int" where
  "binade x =
     (if 1 \<le> \<bar>x\<bar> then bitlen \<lfloor>\<bar>x\<bar>\<rfloor> - 1 else - bitlen (\<lceil>1 / \<bar>x\<bar>\<rceil> - 1))"

definition expo :: "real \<Rightarrow> int" where
  "expo x = max (- 1022) (binade x)"

text \<open>The nearest integer, a tie going to the even one.\<close>

definition round_half_even :: "real \<Rightarrow> int" where
  "round_half_even y =
     (let f = \<lfloor>y\<rfloor>; d = y - of_int f
      in if d < 1 / 2 then f else if 1 / 2 < d then f + 1 else if even f then f else f + 1)"

text \<open>
  Rounding a real number to binary64. The values with exponent \<open>e\<close> are the
  multiples of \<open>pow2 (e - 52)\<close> (a significand of 53 bits); a result of magnitude
  \<open>pow2 1024\<close> is beyond the largest finite value and becomes an infinity.
\<close>

definition round64 :: "real \<Rightarrow> jsnum" where
  "round64 x =
     (if x = 0 then Fin 0
      else let q = pow2 (expo x - 52);
               y = of_int (round_half_even (x / q)) * q
           in if pow2 1024 \<le> \<bar>y\<bar> then (if 0 < x then PosInf else NegInf) else Fin y)"

text \<open>A model value that is a binary64 value: a finite one is left as it is by the rounding.\<close>

fun binary64 :: "jsnum \<Rightarrow> bool" where
  "binary64 (Fin x) = (round64 x = Fin x)"
| "binary64 PosInf = True"
| "binary64 NegInf = True"
| "binary64 NaN = True"

fun js_add :: "jsnum \<Rightarrow> jsnum \<Rightarrow> jsnum" where
  "js_add NaN _ = NaN"
| "js_add _ NaN = NaN"
| "js_add (Fin a) (Fin b) = round64 (a + b)"
| "js_add PosInf NegInf = NaN"
| "js_add NegInf PosInf = NaN"
| "js_add PosInf _ = PosInf"
| "js_add NegInf _ = NegInf"
| "js_add (Fin a) PosInf = PosInf"
| "js_add (Fin a) NegInf = NegInf"

fun js_neg :: "jsnum \<Rightarrow> jsnum" where
  "js_neg (Fin a) = Fin (- a)"
| "js_neg PosInf = NegInf"
| "js_neg NegInf = PosInf"
| "js_neg NaN = NaN"

definition js_sub :: "jsnum \<Rightarrow> jsnum \<Rightarrow> jsnum" where
  "js_sub a b = js_add a (js_neg b)"

fun js_mul :: "jsnum \<Rightarrow> jsnum \<Rightarrow> jsnum" where
  "js_mul NaN _ = NaN"
| "js_mul _ NaN = NaN"
| "js_mul (Fin a) (Fin b) = round64 (a * b)"
| "js_mul PosInf (Fin b) = (if b = 0 then NaN else if 0 < b then PosInf else NegInf)"
| "js_mul NegInf (Fin b) = (if b = 0 then NaN else if 0 < b then NegInf else PosInf)"
| "js_mul (Fin a) PosInf = (if a = 0 then NaN else if 0 < a then PosInf else NegInf)"
| "js_mul (Fin a) NegInf = (if a = 0 then NaN else if 0 < a then NegInf else PosInf)"
| "js_mul PosInf PosInf = PosInf"
| "js_mul NegInf NegInf = PosInf"
| "js_mul PosInf NegInf = NegInf"
| "js_mul NegInf PosInf = NegInf"

text \<open>Division; a zero divisor is \<open>+0\<close>.\<close>

fun js_div :: "jsnum \<Rightarrow> jsnum \<Rightarrow> jsnum" where
  "js_div NaN _ = NaN"
| "js_div _ NaN = NaN"
| "js_div (Fin a) (Fin b) =
     (if b = 0 then (if a = 0 then NaN else if 0 < a then PosInf else NegInf)
      else round64 (a / b))"
| "js_div PosInf (Fin b) = (if 0 \<le> b then PosInf else NegInf)"
| "js_div NegInf (Fin b) = (if 0 \<le> b then NegInf else PosInf)"
| "js_div (Fin a) PosInf = Fin 0"
| "js_div (Fin a) NegInf = Fin 0"
| "js_div PosInf PosInf = NaN"
| "js_div PosInf NegInf = NaN"
| "js_div NegInf PosInf = NaN"
| "js_div NegInf NegInf = NaN"

text \<open>\<open>a > 0\<close>, \<open>a <= b\<close> and \<open>isFinite\<close>: every comparison with \<open>NaN\<close> is false.\<close>

fun js_pos :: "jsnum \<Rightarrow> bool" where
  "js_pos (Fin a) = (0 < a)"
| "js_pos PosInf = True"
| "js_pos NegInf = False"
| "js_pos NaN = False"

fun js_le :: "jsnum \<Rightarrow> jsnum \<Rightarrow> bool" where
  "js_le NaN _ = False"
| "js_le _ NaN = False"
| "js_le (Fin a) (Fin b) = (a \<le> b)"
| "js_le NegInf _ = True"
| "js_le _ PosInf = True"
| "js_le PosInf _ = False"
| "js_le _ NegInf = False"

fun isFinite :: "jsnum \<Rightarrow> bool" where
  "isFinite (Fin a) = True"
| "isFinite PosInf = False"
| "isFinite NegInf = False"
| "isFinite NaN = False"

text \<open>
  \<open>Math.round\<close>: the nearest integer, a tie going to the larger one
  (\<open>Math.round(-12.5)\<close> is \<open>-12\<close>). The result is exact: a binary64 value of
  magnitude \<open>pow2 52\<close> or more is an integer, and the integers below are binary64
  values.
\<close>

fun Math_round :: "jsnum \<Rightarrow> jsnum" where
  "Math_round (Fin a) = Fin (of_int \<lfloor>a + 1 / 2\<rfloor>)"
| "Math_round PosInf = PosInf"
| "Math_round NegInf = NegInf"
| "Math_round NaN = NaN"

text \<open>
  \<open>Math.min(...xs)\<close> and \<open>Math.max(...xs)\<close>: with no argument they are
  \<open>Infinity\<close> and \<open>-Infinity\<close>; a \<open>NaN\<close> argument makes the result \<open>NaN\<close>.
\<close>

fun js_min2 :: "jsnum \<Rightarrow> jsnum \<Rightarrow> jsnum" where
  "js_min2 NaN _ = NaN"
| "js_min2 _ NaN = NaN"
| "js_min2 a b = (if js_le a b then a else b)"

fun js_max2 :: "jsnum \<Rightarrow> jsnum \<Rightarrow> jsnum" where
  "js_max2 NaN _ = NaN"
| "js_max2 _ NaN = NaN"
| "js_max2 a b = (if js_le a b then b else a)"

definition Math_min :: "jsnum list \<Rightarrow> jsnum" where
  "Math_min xs = foldl js_min2 PosInf xs"

definition Math_max :: "jsnum list \<Rightarrow> jsnum" where
  "Math_max xs = foldl js_max2 NegInf xs"

subsection \<open>Statistics: \<open>average\<close>, \<open>median\<close>, \<open>formatTime\<close>\<close>

text \<open>
  \<open>array.reduce((a, b) => a + b, 0) / array.length\<close>: the sum from the left,
  each addition rounded, and the quotient rounded.
\<close>

definition average :: "jsnum list \<Rightarrow> jsnum" where
  "average array = js_div (foldl js_add (Fin 0) array) (Fin (real (length array)))"

text \<open>
  \<open>sort((a, b) => a - b)\<close>. The comparator's result \<open>v\<close> puts \<open>a\<close> after
  \<open>b\<close> when \<open>v > 0\<close>; \<open>NaN\<close> counts as \<open>0\<close>. The sort is stable, so with a
  consistent comparator its result is the one of the insertion sort below. With a
  \<open>NaN\<close> among the elements the comparator is not consistent and the language leaves
  the order to the implementation; the model then gives the order of this insertion
  sort.
\<close>

definition comparefn :: "jsnum \<Rightarrow> jsnum \<Rightarrow> jsnum" where
  "comparefn a b = js_sub a b"

fun sort_insert :: "jsnum \<Rightarrow> jsnum list \<Rightarrow> jsnum list" where
  "sort_insert x [] = [x]"
| "sort_insert x (y # ys) =
     (if js_pos (comparefn x y) then y # sort_insert x ys else x # y # ys)"

definition js_sort :: "jsnum list \<Rightarrow> jsnum list" where
  "js_sort xs = foldr sort_insert xs []"

text \<open>
  An index read \<open>numbers[i]\<close>; out of range it is \<open>undefined\<close>, which the
  arithmetic of \<open>median\<close> turns into \<open>NaN\<close>.
\<close>

definition js_index :: "jsnum list \<Rightarrow> int \<Rightarrow> jsnum" where
  "js_index xs i = (if 0 \<le> i \<and> i < int (length xs) then xs ! nat i else NaN)"

definition median :: "jsnum list \<Rightarrow> jsnum" where
  "median array =
     (let mid = int (length array div 2);
          numbers = js_sort array
      in if length array mod 2 \<noteq> 0
         then js_index numbers mid
         else js_div (js_add (js_index numbers (mid - 1)) (js_index numbers mid)) (Fin 2))"

definition formatTime :: "jsnum \<Rightarrow> jsnum" where
  "formatTime number =
     (let factor = Fin (10 ^ 2)
      in js_div (Math_round (js_mul number factor)) factor)"

subsection \<open>Errors\<close>

text \<open>
  What the module throws. \<open>TypeError p\<close> is the engine's error for reading the
  property \<open>p\<close> of \<open>undefined\<close> (or spreading \<open>undefined\<close>, with
  \<open>p = ''iterator''\<close>); it carries the property read, nothing about the object the
  value came from. \<open>Error msg\<close> is \<open>throw new Error(msg)\<close>. The two others are
  the rejections of the helpers of \<open>../lib/utils\<close>, which are not part of the
  sources: a shell script that fails and a JSON file that cannot be read or parsed.
\<close>

datatype error =
    TypeError string
  | Error string
  | ShellScriptFailed string
  | ReadJSONFailed string

subsection \<open>Result bundles\<close>

text \<open>
  \<open>WPRawPerformanceResults\<close> is the object parsed from the results file of a
  suite: a metric name gives an array of samples, or \<open>undefined\<close> when the key is
  absent. JSON numbers are finite.
\<close>

type_synonym WPRawPerformanceResults = "string \<rightharpoonup> real list"

text \<open>
  \<open>WPPerformanceResults\<close>, in the order in which \<open>curateResults\<close> writes the
  keys. The type parameter is the type of the values: numbers in a curated bundle, the
  per-round arrays while the medians are computed.
\<close>

record 'a WPPerformanceResults =
  serverResponse :: 'a
  firstPaint :: 'a
  domContentLoaded :: 'a
  loaded :: 'a
  firstContentfulPaint :: 'a
  firstBlock :: 'a
  type :: 'a
  minType :: 'a
  maxType :: 'a
  focus :: 'a
  minFocus :: 'a
  maxFocus :: 'a
  inserterOpen :: 'a
  minInserterOpen :: 'a
  maxInserterOpen :: 'a
  inserterSearch :: 'a
  minInserterSearch :: 'a
  maxInserterSearch :: 'a
  inserterHover :: 'a
  minInserterHover :: 'a
  maxInserterHover :: 'a
  listViewOpen :: 'a
  minListViewOpen :: 'a
  maxListViewOpen :: 'a

text \<open>\<open>Object.entries\<close> of a bundle: the keys with their values, in key order.\<close>

definition entries :: "'a WPPerformanceResults \<Rightarrow> (string \<times> 'a) list" where
  "entries r =
    [ (''serverResponse'', serverResponse r),
      (''firstPaint'', firstPaint r),
      (''domContentLoaded'', domContentLoaded r),
      (''loaded'', loaded r),
      (''firstContentfulPaint'', firstContentfulPaint r),
      (''firstBlock'', firstBlock r),
      (''type'', type r),
      (''minType'', minType r),
      (''maxType'', maxType r),
      (''focus'', focus r),
      (''minFocus'', minFocus r),
      (''maxFocus'', maxFocus r),
      (''inserterOpen'', inserterOpen r),
      (''minInserterOpen'', minInserterOpen r),
      (''maxInserterOpen'', maxInserterOpen r),
      (''inserterSearch'', inserterSearch r),
      (''minInserterSearch'', minInserterSearch r),
      (''maxInserterSearch'', maxInserterSearch r),
      (''inserterHover'', inserterHover r),
      (''minInserterHover'', minInserterHover r),
      (''maxInserterHover'', maxInserterHover r),
      (''listViewOpen'', listViewOpen r),
      (''minListViewOpen'', minListViewOpen r),
      (''maxListViewOpen'', maxListViewOpen r) ]"

text \<open>lodash's \<open>mapValues(object, f)\<close> on a bundle.\<close>

definition mapValues :: "('a \<Rightarrow> 'b) \<Rightarrow> 'a WPPerformanceResults \<Rightarrow> 'b WPPerformanceResults" where
  "mapValues f r =
    \<lparr> serverResponse = f (serverResponse r),
      firstPaint = f (firstPaint r),
      domContentLoaded = f (domContentLoaded r),
      loaded = f (loaded r),
      firstContentfulPaint = f (firstContentfulPaint r),
      firstBlock = f (firstBlock r),
      type = f (type r),
      minType = f (minType r),
      maxType = f (maxType r),
      focus = f (focus r),
      minFocus = f (minFocus r),
      maxFocus = f (maxFocus r),
      inserterOpen = f (inserterOpen r),
      minInserterOpen = f (minInserterOpen r),
      maxInserterOpen = f (maxInserterOpen r),
      inserterSearch = f (inserterSearch r),
      minInserterSearch = f (minInserterSearch r),
      maxInserterSearch = f (maxInserterSearch r),
      inserterHover = f (inserterHover r),
      minInserterHover = f (minInserterHover r),
      maxInserterHover = f (maxInserterHover r),
      listViewOpen = f (listViewOpen r),
      minListViewOpen = f (minListViewOpen r),
      maxListViewOpen = f (maxListViewOpen r) \<rparr>"

text \<open>
  An object literal whose property values may throw: the values are evaluated in the
  order written, and the first one that throws ends the evaluation with its error.
\<close>

fun first_error :: "(string \<times> (error + 'a)) list \<Rightarrow> error option" where
  "first_error [] = None"
| "first_error ((k, Inl e) # kvs) = Some e"
| "first_error ((k, Inr v) # kvs) = first_error kvs"

definition object_literal :: "(error + 'a) WPPerformanceResults \<Rightarrow> error + 'a WPPerformanceResults" where
  "object_literal r =
     (case first_error (entries r) of
        Some e \<Rightarrow> Inl e
      | None \<Rightarrow> Inr (mapValues projr r))"

subsection \<open>\<open>curateResults\<close>\<close>

text \<open>
  The helpers as \<open>curateResults\<close> calls them, on a property of the parsed object
  that may be \<open>undefined\<close>: \<open>average(undefined)\<close> throws at
  \<open>array.reduce\<close>, and \<open>Math.min(...undefined)\<close> at the spread.
\<close>

definition average_of :: "real list option \<Rightarrow> error + jsnum" where
  "average_of array =
     (case array of
        None \<Rightarrow> Inl (TypeError ''reduce'')
      | Some xs \<Rightarrow> Inr (average (map Fin xs)))"

definition min_of :: "real list option \<Rightarrow> error + jsnum" where
  "min_of array =
     (case array of
        None \<Rightarrow> Inl (TypeError ''iterator'')
      | Some xs \<Rightarrow> Inr (Math_min (map Fin xs)))"

definition max_of :: "real list option \<Rightarrow> error + jsnum" where
  "max_of array =
     (case array of
        None \<Rightarrow> Inl (TypeError ''iterator'')
      | Some xs \<Rightarrow> Inr (Math_max (map Fin xs)))"

definition curateResults :: "WPRawPerformanceResults \<Rightarrow> error + jsnum WPPerformanceResults" where
  "curateResults results = object_literal
    \<lparr> serverResponse = average_of (results ''serverResponse''),
      firstPaint = average_of (results ''firstPaint''),
      domContentLoaded = average_of (results ''domContentLoaded''),
      loaded = average_of (results ''loaded''),
      firstContentfulPaint = average_of (results ''firstContentfulPaint''),
      firstBlock = average_of (results ''firstBlock''),
      type = average_of (results ''type''),
      minType = min_of (results ''type''),
      maxType = max_of (results ''type''),
      focus = average_of (results ''focus''),
      minFocus = min_of (results ''focus''),
      maxFocus = max_of (results ''focus''),
      inserterOpen = average_of (results ''inserterOpen''),
      minInserterOpen = min_of (results ''inserterOpen''),
      maxInserterOpen = max_of (results ''inserterOpen''),
      inserterSearch = average_of (results ''inserterSearch''),
      minInserterSearch = min_of (results ''inserterSearch''),
      maxInserterSearch = max_of (results ''inserterSearch''),
      inserterHover = average_of (results ''inserterHover''),
      minInserterHover = min_of (results ''inserterHover''),
      maxInserterHover = max_of (results ''inserterHover''),
      listViewOpen = average_of (results ''listViewOpen''),
      minListViewOpen = min_of (results ''listViewOpen''),
      maxListViewOpen = max_of (results ''listViewOpen'') \<rparr>"

text \<open>The twelve keys that \<open>curateResults\<close> reads.\<close>

definition metricKeys :: "string list" where
  "metricKeys =
    [ ''serverResponse'', ''firstPaint'', ''domContentLoaded'', ''loaded'',
      ''firstContentfulPaint'', ''firstBlock'', ''type'', ''focus'', ''inserterOpen'',
      ''inserterSearch'', ''inserterHover'', ''listViewOpen'' ]"

subsection \<open>\<open>median\<close> on the heap\<close>

text \<open>
  \<open>Array.prototype.sort\<close> sorts the array it is called on, in place;
  \<open>median\<close> calls it on the copy \<open>[...array]\<close>. To speak of the caller's
  array, the same function is given on a store of arrays: \<open>spread_copy\<close> allocates
  the copy at the next free address and \<open>sort_in_place\<close> overwrites the cell it is
  given. A read of an address that holds no array gives \<open>None\<close>.
\<close>

record store =
  cells :: "nat \<Rightarrow> jsnum list option"
  next_addr :: nat

definition spread_copy :: "store \<Rightarrow> nat \<Rightarrow> (nat \<times> store) option" where
  "spread_copy s a =
     (case cells s a of
        None \<Rightarrow> None
      | Some xs \<Rightarrow>
          Some (next_addr s,
                s\<lparr>cells := (cells s)(next_addr s \<mapsto> xs), next_addr := Suc (next_addr s)\<rparr>))"

definition sort_in_place :: "store \<Rightarrow> nat \<Rightarrow> store option" where
  "sort_in_place s a =
     (case cells s a of
        None \<Rightarrow> None
      | Some xs \<Rightarrow> Some (s\<lparr>cells := (cells s)(a \<mapsto> js_sort xs)\<rparr>))"

definition median_store :: "store \<Rightarrow> nat \<Rightarrow> (jsnum \<times> store) option" where
  "median_store s array =
     (case cells s array of
        None \<Rightarrow> None
      | Some xs \<Rightarrow>
         (let mid = int (length xs div 2) in
          case spread_copy s array of
            None \<Rightarrow> None
          | Some (numbers, s1) \<Rightarrow>
             (case sort_in_place s1 numbers of
                None \<Rightarrow> None
              | Some s2 \<Rightarrow>
                 (case (cells s2 numbers, cells s2 array) of
                    (Some ns, Some ys) \<Rightarrow>
                      Some (if length ys mod 2 \<noteq> 0
                            then js_index ns mid
                            else js_div (js_add (js_index ns (mid - 1)) (js_index ns mid)) (Fin 2),
                            s2)
                  | _ \<Rightarrow> None))))"

subsection \<open>The version of the base install\<close>

text \<open>
  \<open>options.wpVersion.replace(/^(\d+\.\d+).0/, '$1')\<close>. The pattern is matched at
  the start of the string only (it is anchored and has no flag), by backtracking: each
  \<open>\d+\<close> takes as many digits as it can and gives them back one at a time. An atom
  maps a string to the remainders it can leave, the preferred one first. The dot of
  \<open>.0\<close> is not escaped: it matches any character but a line terminator.
\<close>

datatype atom = Digits | Lit char | AnyChar

definition is_digit :: "char \<Rightarrow> bool" where
  "is_digit c = (c \<in> set ''0123456789'')"

definition is_line_terminator :: "char \<Rightarrow> bool" where
  "is_line_terminator c = (c = CHR 0x0A \<or> c = CHR 0x0D)"

fun digits_plus :: "string \<Rightarrow> string list" where
  "digits_plus [] = []"
| "digits_plus (c # cs) = (if is_digit c then digits_plus cs @ [cs] else [])"

fun match_atom :: "atom \<Rightarrow> string \<Rightarrow> string list" where
  "match_atom Digits s = digits_plus s"
| "match_atom (Lit c) [] = []"
| "match_atom (Lit c) (x # xs) = (if x = c then [xs] else [])"
| "match_atom AnyChar [] = []"
| "match_atom AnyChar (x # xs) = (if is_line_terminator x then [] else [xs])"

fun match_atoms :: "atom list \<Rightarrow> string \<Rightarrow> string list" where
  "match_atoms [] s = [s]"
| "match_atoms (a # as) s = concat (map (match_atoms as) (match_atom a s))"

text \<open>
  The first match in backtracking order: \<open>g\<close> is what follows the group
  \<open>(\d+\.\d+)\<close>, \<open>r\<close> what follows the whole match. The match is replaced by
  the text of the group.
\<close>

definition zipVersion :: "string \<Rightarrow> string" where
  "zipVersion wpVersion =
     (case concat (map (\<lambda>g. map (\<lambda>r. (g, r)) (match_atoms [AnyChar, Lit CHR ''0''] g))
                       (match_atoms [Digits, Lit CHR ''.'', Digits] wpVersion)) of
        [] \<Rightarrow> wpVersion
      | (g, r) # _ \<Rightarrow> take (length wpVersion - length g) wpVersion @ r)"

definition zipUrl :: "string \<Rightarrow> string" where
  "zipUrl wpVersion = ''https://wordpress.org/wordpress-'' @ zipVersion wpVersion @ ''.zip''"

record WPPerformanceCommandOptions =
  ci :: "bool option"
  testsBranch :: "string option"
  wpVersion :: "string option"

datatype json =
    JNull
  | JBool bool
  | JNumber real
  | JString string
  | JArray "json list"
  | JObject "(string \<times> json) list"

text \<open>
  The \<open>.wp-env.json\<close> of an environment after the branch has been prepared: the
  copied template \<open>conf\<close>, with \<open>core\<close> overwritten when \<open>options.wpVersion\<close>
  is a non-empty string.
\<close>

definition patch_wp_env :: "WPPerformanceCommandOptions \<Rightarrow> (string \<rightharpoonup> json) \<Rightarrow> (string \<rightharpoonup> json)" where
  "patch_wp_env options conf =
     (case wpVersion options of
        None \<Rightarrow> conf
      | Some v \<Rightarrow> if v = [] then conf else conf(''core'' \<mapsto> JString (zipUrl v)))"

subsection \<open>The refs to compare\<close>

text \<open>
  The head of \<open>runPerformanceTests\<close>, up to the check on \<open>refs\<close>. An environment
  variable is a string or \<open>undefined\<close>, so an inferred ref may be \<open>undefined\<close>.
  The log lines and the confirmation prompt are left out.
\<close>

record process_env =
  CI :: "string option"
  GITHUB_SHA :: "string option"
  GITHUB_BASE_REF :: "string option"

definition truthy :: "string option \<Rightarrow> bool" where
  "truthy v = (case v of None \<Rightarrow> False | Some s \<Rightarrow> s \<noteq> [])"

fun join :: "string \<Rightarrow> string option list \<Rightarrow> string" where
  "join sep [] = []"
| "join sep [x] = (case x of None \<Rightarrow> [] | Some s \<Rightarrow> s)"
| "join sep (x # y # ys) = (case x of None \<Rightarrow> [] | Some s \<Rightarrow> s) @ sep @ join sep (y # ys)"

definition resolveRefs :: "process_env \<Rightarrow> string list \<Rightarrow> error + string option list" where
  "resolveRefs env branches =
     (let branchesWereSpecified = (length branches > 0);
          runningInCI = truthy (CI env);
          inferTestBranches = (runningInCI \<and> \<not> branchesWereSpecified);
          mergeRef = GITHUB_SHA env;
          baseRef = GITHUB_BASE_REF env;
          branches1 = (if length branches = 0 then [''trunk''] else branches);
          refs = (if inferTestBranches then [mergeRef, baseRef] else map Some branches1)
      in if length refs \<le> 0
         then Inl (Error (''Need at least two git refs to run: given '' @ join '', '' refs))
         else Inr refs)"

subsection \<open>Running the suites\<close>

text \<open>
  \<open>runShellScript\<close> and \<open>readJSONFile\<close> come from \<open>../lib/utils\<close>, which is not
  part of the sources. They are parameters: a \<open>world\<close> says, given what has been
  done so far, whether a script succeeds in a directory and what a JSON file holds
  (\<open>None\<close> when it cannot be read or parsed). Every call is recorded, also a failing
  one, so that the order of the calls can be read off the trace.
\<close>

datatype event = Shell string "string option" | ReadJSON string

record world =
  shell_ok :: "event list \<Rightarrow> string \<Rightarrow> string option \<Rightarrow> bool"
  json_file :: "event list \<Rightarrow> string \<Rightarrow> WPRawPerformanceResults option"

type_synonym 'a io = "event list \<Rightarrow> (error + 'a) \<times> event list"

definition runShellScript :: "world \<Rightarrow> string \<Rightarrow> string option \<Rightarrow> unit io" where
  "runShellScript w script cwd tr =
     (if shell_ok w tr script cwd then Inr () else Inl (ShellScriptFailed script),
      tr @ [Shell script cwd])"

definition readJSONFile :: "world \<Rightarrow> string \<Rightarrow> WPRawPerformanceResults io" where
  "readJSONFile w fileName tr =
     (case json_file w tr fileName of
        None \<Rightarrow> Inl (ReadJSONFailed fileName)
      | Some v \<Rightarrow> Inr v,
      tr @ [ReadJSON fileName])"

definition test_command :: "string \<Rightarrow> string" where
  "test_command testSuite =
     ''npm run test:performance -- packages/e2e-tests/specs/performance/'' @ testSuite @ ''.test.js''"

text \<open>\<open>path.join\<close> of the directory and the relative path of the results file.\<close>

definition results_file :: "string \<Rightarrow> string \<Rightarrow> string" where
  "results_file performanceTestDirectory testSuite =
     performanceTestDirectory @ ''/packages/e2e-tests/specs/performance/'' @ testSuite
       @ ''.test.results.json''"

definition runTestSuite :: "world \<Rightarrow> string \<Rightarrow> string \<Rightarrow> jsnum WPPerformanceResults io" where
  "runTestSuite w testSuite performanceTestDirectory tr =
     (case runShellScript w (test_command testSuite) (Some performanceTestDirectory) tr of
        (Inl e, tr1) \<Rightarrow> (Inl e, tr1)
      | (Inr _, tr1) \<Rightarrow>
         (case readJSONFile w (results_file performanceTestDirectory testSuite) tr1 of
            (Inl e, tr2) \<Rightarrow> (Inl e, tr2)
          | (Inr rawResults, tr2) \<Rightarrow> (curateResults rawResults, tr2)))"

definition wp_env_start :: string where
  "wp_env_start = ''../../tests/node_modules/.bin/wp-env start''"

definition wp_env_stop :: string where
  "wp_env_stop = ''../../tests/node_modules/.bin/wp-env stop''"

text \<open>
  The body of the innermost loop, for one ref: start the environment of the ref, run
  the suite, store the curated bundle under the ref in \<open>rawResults[ i ]\<close>, stop
  the environment. An error leaves the body where it is thrown.
\<close>

definition testRef ::
  "world \<Rightarrow> (string \<rightharpoonup> string) \<Rightarrow> string \<Rightarrow> string \<Rightarrow>
   (string \<rightharpoonup> jsnum WPPerformanceResults) \<Rightarrow> string \<Rightarrow>
   (string \<rightharpoonup> jsnum WPPerformanceResults) io" where
  "testRef w branchDirectories performanceTestDirectory testSuite rawResults_i ref tr =
     (let environmentDirectory = branchDirectories ref in
      case runShellScript w wp_env_start environmentDirectory tr of
        (Inl e, tr1) \<Rightarrow> (Inl e, tr1)
      | (Inr _, tr1) \<Rightarrow>
         (case runTestSuite w testSuite performanceTestDirectory tr1 of
            (Inl e, tr2) \<Rightarrow> (Inl e, tr2)
          | (Inr curated, tr2) \<Rightarrow>
             (case runShellScript w wp_env_stop environmentDirectory tr2 of
                (Inl e, tr3) \<Rightarrow> (Inl e, tr3)
              | (Inr _, tr3) \<Rightarrow> (Inr (rawResults_i(ref \<mapsto> curated)), tr3))))"

text \<open>\<open>for ( const ref of refs )\<close>\<close>

fun testRefs ::
  "world \<Rightarrow> (string \<rightharpoonup> string) \<Rightarrow> string \<Rightarrow> string \<Rightarrow>
   (string \<rightharpoonup> jsnum WPPerformanceResults) \<Rightarrow> string list \<Rightarrow>
   (string \<rightharpoonup> jsnum WPPerformanceResults) io" where
  "testRefs w branchDirectories performanceTestDirectory testSuite rawResults_i [] tr = (Inr rawResults_i, tr)"
| "testRefs w branchDirectories performanceTestDirectory testSuite rawResults_i (ref # refs) tr =
     (case testRef w branchDirectories performanceTestDirectory testSuite rawResults_i ref tr of
        (Inl e, tr1) \<Rightarrow> (Inl e, tr1)
      | (Inr rawResults_i1, tr1) \<Rightarrow>
          testRefs w branchDirectories performanceTestDirectory testSuite rawResults_i1 refs tr1)"

text \<open>
  \<open>for ( let i = 0; i < 3; i++ )\<close>. The array \<open>rawResults\<close> starts empty and
  gets one object per round, so \<open>i\<close> is its length when \<open>rawResults[ i ] = {}\<close>
  runs: the write appends.
\<close>

function testRounds ::
  "world \<Rightarrow> (string \<rightharpoonup> string) \<Rightarrow> string \<Rightarrow> string \<Rightarrow> string list \<Rightarrow> nat \<Rightarrow>
   (string \<rightharpoonup> jsnum WPPerformanceResults) list \<Rightarrow>
   (string \<rightharpoonup> jsnum WPPerformanceResults) list io" where
  "testRounds w branchDirectories performanceTestDirectory testSuite refs i rawResults tr =
     (if i < 3
      then (case testRefs w branchDirectories performanceTestDirectory testSuite Map.empty refs tr of
              (Inl e, tr1) \<Rightarrow> (Inl e, tr1)
            | (Inr rawResults_i, tr1) \<Rightarrow>
                testRounds w branchDirectories performanceTestDirectory testSuite refs (i + 1)
                  (rawResults @ [rawResults_i]) tr1)
      else (Inr rawResults, tr))"
  by pat_completeness auto
termination
  by (relation "measure (\<lambda>(w, bd, ptd, s, refs, i, raw, tr). 3 - i)") auto

declare testRounds.simps [simp del]

subsection \<open>Medians\<close>

text \<open>
  \<open>rawResults.map( ( r ) => r[ ref ].key )\<close>: reading \<open>key\<close> of
  \<open>r[ ref ]\<close> throws when a round has nothing under \<open>ref\<close>.
\<close>

definition pluck ::
  "(string \<rightharpoonup> jsnum WPPerformanceResults) list \<Rightarrow> string \<Rightarrow> string \<Rightarrow>
   (jsnum WPPerformanceResults \<Rightarrow> jsnum) \<Rightarrow> error + jsnum list" where
  "pluck rawResults ref key sel =
     (if list_all (\<lambda>r. r ref \<noteq> None) rawResults
      then Inr (map (\<lambda>r. sel (the (r ref))) rawResults)
      else Inl (TypeError key))"

definition medians_of ::
  "(string \<rightharpoonup> jsnum WPPerformanceResults) list \<Rightarrow> string \<Rightarrow> error + jsnum WPPerformanceResults" where
  "medians_of rawResults ref =
     (case object_literal
        \<lparr> serverResponse = pluck rawResults ref ''serverResponse'' serverResponse,
          firstPaint = pluck rawResults ref ''firstPaint'' firstPaint,
          domContentLoaded = pluck rawResults ref ''domContentLoaded'' domContentLoaded,
          loaded = pluck rawResults ref ''loaded'' loaded,
          firstContentfulPaint = pluck rawResults ref ''firstContentfulPaint'' firstContentfulPaint,
          firstBlock = pluck rawResults ref ''firstBlock'' firstBlock,
          type = pluck rawResults ref ''type'' type,
          minType = pluck rawResults ref ''minType'' minType,
          maxType = pluck rawResults ref ''maxType'' maxType,
          focus = pluck rawResults ref ''focus'' focus,
          minFocus = pluck rawResults ref ''minFocus'' minFocus,
          maxFocus = pluck rawResults ref ''maxFocus'' maxFocus,
          inserterOpen = pluck rawResults ref ''inserterOpen'' inserterOpen,
          minInserterOpen = pluck rawResults ref ''minInserterOpen'' minInserterOpen,
          maxInserterOpen = pluck rawResults ref ''maxInserterOpen'' maxInserterOpen,
          inserterSearch = pluck rawResults ref ''inserterSearch'' inserterSearch,
          minInserterSearch = pluck rawResults ref ''minInserterSearch'' minInserterSearch,
          maxInserterSearch = pluck rawResults ref ''maxInserterSearch'' maxInserterSearch,
          inserterHover = pluck rawResults ref ''inserterHover'' inserterHover,
          minInserterHover = pluck rawResults ref ''minInserterHover'' minInserterHover,
          maxInserterHover = pluck rawResults ref ''maxInserterHover'' maxInserterHover,
          listViewOpen = pluck rawResults ref ''listViewOpen'' listViewOpen,
          minListViewOpen = pluck rawResults ref ''minListViewOpen'' minListViewOpen,
          maxListViewOpen = pluck rawResults ref ''maxListViewOpen'' maxListViewOpen \<rparr> of
        Inl e \<Rightarrow> Inl e
      | Inr arrays \<Rightarrow> Inr (mapValues median arrays))"

text \<open>
  The loop \<open>// Computing medians\<close>: \<open>table\<close> is \<open>results[ testSuite ]\<close>.
\<close>

fun computeMedians ::
  "(string \<rightharpoonup> jsnum WPPerformanceResults) list \<Rightarrow> (string \<rightharpoonup> jsnum WPPerformanceResults) \<Rightarrow>
   string list \<Rightarrow> error + (string \<rightharpoonup> jsnum WPPerformanceResults)" where
  "computeMedians rawResults table [] = Inr table"
| "computeMedians rawResults table (ref # refs) =
     (case medians_of rawResults ref of
        Inl e \<Rightarrow> Inl e
      | Inr medians \<Rightarrow>
          computeMedians rawResults (table(ref \<mapsto> mapValues formatTime medians)) refs)"

definition testSuites :: "string list" where
  "testSuites = [''post-editor'', ''site-editor'']"

text \<open>\<open>for ( const testSuite of testSuites )\<close>: the rounds of a suite, then its medians.\<close>

fun testSuitesLoop ::
  "world \<Rightarrow> (string \<rightharpoonup> string) \<Rightarrow> string \<Rightarrow> string list \<Rightarrow>
   (string \<rightharpoonup> (string \<rightharpoonup> jsnum WPPerformanceResults)) \<Rightarrow> string list \<Rightarrow>
   (string \<rightharpoonup> (string \<rightharpoonup> jsnum WPPerformanceResults)) io" where
  "testSuitesLoop w branchDirectories performanceTestDirectory refs results [] tr = (Inr results, tr)"
| "testSuitesLoop w branchDirectories performanceTestDirectory refs results (testSuite # rest) tr =
     (case testRounds w branchDirectories performanceTestDirectory testSuite refs 0 [] tr of
        (Inl e, tr1) \<Rightarrow> (Inl e, tr1)
      | (Inr rawResults, tr1) \<Rightarrow>
         (case computeMedians rawResults Map.empty refs of
            Inl e \<Rightarrow> (Inl e, tr1)
          | Inr table \<Rightarrow>
              testSuitesLoop w branchDirectories performanceTestDirectory refs
                (results(testSuite \<mapsto> table)) rest tr1))"

text \<open>Step 4 of \<open>runPerformanceTests\<close>, \<open>// 4- Running the tests\<close>.\<close>

definition runTests ::
  "world \<Rightarrow> (string \<rightharpoonup> string) \<Rightarrow> string \<Rightarrow> string list \<Rightarrow>
   (string \<rightharpoonup> (string \<rightharpoonup> jsnum WPPerformanceResults)) io" where
  "runTests w branchDirectories performanceTestDirectory refs tr =
     testSuitesLoop w branchDirectories performanceTestDirectory refs Map.empty testSuites tr"

subsection \<open>The table on the console\<close>

text \<open>
  Step 5 builds \<open>invertedResult\<close> from the table of a suite: for each ref \<open>key\<close>
  and each entry of its bundle, a cell \<open>val[ entry ] + ' ms'\<close> under the entry and
  the ref, when the value is finite. The text of a number is a parameter. \<open>keys\<close>
  enumerates the refs of the table; the cells do not depend on the order.
\<close>

definition Object_entries :: "('k \<rightharpoonup> 'v) \<Rightarrow> 'k list \<Rightarrow> ('k \<times> 'v) list" where
  "Object_entries obj keys =
     concat (map (\<lambda>k. case obj k of None \<Rightarrow> [] | Some v \<Rightarrow> [(k, v)]) (remdups keys))"

definition invert_entry ::
  "(jsnum \<Rightarrow> string) \<Rightarrow> string \<Rightarrow> (string \<rightharpoonup> (string \<rightharpoonup> string)) \<Rightarrow> string \<times> jsnum \<Rightarrow>
   (string \<rightharpoonup> (string \<rightharpoonup> string))" where
  "invert_entry toString key acc ev =
     (let entry = fst ev; v = snd ev;
          acc1 = (if acc entry = None \<and> isFinite v then acc(entry \<mapsto> Map.empty) else acc)
      in if isFinite v
         then (case acc1 entry of
                 None \<Rightarrow> acc1
               | Some row \<Rightarrow> acc1(entry \<mapsto> row(key \<mapsto> toString v @ '' ms'')))
         else acc1)"

definition invertedResult ::
  "(jsnum \<Rightarrow> string) \<Rightarrow> (string \<rightharpoonup> jsnum WPPerformanceResults) \<Rightarrow> string list \<Rightarrow>
   (string \<rightharpoonup> (string \<rightharpoonup> string))" where
  "invertedResult toString table keys =
     foldl (\<lambda>acc (key, val). foldl (invert_entry toString key) acc (entries val))
       Map.empty (Object_entries table keys)"

subsection \<open>Notions of the specification\<close>

definition arithmetic_mean :: "real list \<Rightarrow> real" where
  "arithmetic_mean xs = sum_list xs / real (length xs)"

text \<open>
  A sample array whose average is computed without rounding: every partial sum from
  the left and the quotient by the length are binary64 values.
\<close>

fun exact_sums :: "real \<Rightarrow> real list \<Rightarrow> bool" where
  "exact_sums s [] = True"
| "exact_sums s (x # xs) = (round64 (s + x) = Fin (s + x) \<and> exact_sums (s + x) xs)"

definition exact_average :: "real list \<Rightarrow> bool" where
  "exact_average xs \<longleftrightarrow>
     xs \<noteq> [] \<and> exact_sums 0 xs \<and> round64 (arithmetic_mean xs) = Fin (arithmetic_mean xs)"

text \<open>Rounding to the nearest integer, a tie going away from zero.\<close>

definition round_half_away_from_zero :: "real \<Rightarrow> int" where
  "round_half_away_from_zero y = (if 0 \<le> y then \<lfloor>y + 1 / 2\<rfloor> else - \<lfloor>- y + 1 / 2\<rfloor>)"

text \<open>The events of one run of a suite on a ref, when every step succeeds.\<close>

definition execution ::
  "(string \<rightharpoonup> string) \<Rightarrow> string \<Rightarrow> string \<Rightarrow> string \<Rightarrow> event list" where
  "execution branchDirectories performanceTestDirectory testSuite ref =
     [ Shell wp_env_start (branchDirectories ref),
       Shell (test_command testSuite) (Some performanceTestDirectory),
       ReadJSON (results_file performanceTestDirectory testSuite),
       Shell wp_env_stop (branchDirectories ref) ]"

text \<open>The events of one round of a suite: one run per ref, in the order of \<open>refs\<close>.\<close>

definition round_events ::
  "(string \<rightharpoonup> string) \<Rightarrow> string \<Rightarrow> string \<Rightarrow> string list \<Rightarrow> event list" where
  "round_events branchDirectories performanceTestDirectory testSuite refs =
     concat (map (execution branchDirectories performanceTestDirectory testSuite) refs)"

text \<open>The events of the three rounds of a suite.\<close>

definition suite_events ::
  "(string \<rightharpoonup> string) \<Rightarrow> string \<Rightarrow> string list \<Rightarrow> string \<Rightarrow> event list" where
  "suite_events branchDirectories performanceTestDirectory refs testSuite =
     concat (map (\<lambda>i. round_events branchDirectories performanceTestDirectory testSuite refs) [0..<3])"

text \<open>
  What has happened since the start of step 4 when the test command of suite \<open>m\<close>,
  round \<open>i\<close>, ref \<open>j\<close> is about to run: the suites before \<open>m\<close>, the rounds
  before \<open>i\<close>, the refs before \<open>j\<close>, and the start of the environment of the
  ref.
\<close>

definition events_before ::
  "(string \<rightharpoonup> string) \<Rightarrow> string \<Rightarrow> string list \<Rightarrow> string list \<Rightarrow> nat \<Rightarrow> nat \<Rightarrow> nat \<Rightarrow> event list" where
  "events_before branchDirectories performanceTestDirectory refs suites m i j =
     concat (map (suite_events branchDirectories performanceTestDirectory refs) (take m suites))
     @ concat (replicate i (round_events branchDirectories performanceTestDirectory (suites ! m) refs))
     @ round_events branchDirectories performanceTestDirectory (suites ! m) (take j refs)
     @ [Shell wp_env_start (branchDirectories (refs ! j))]"

text \<open>The number of times \<open>wp-env stop\<close> has been invoked.\<close>

definition stop_count :: "event list \<Rightarrow> nat" where
  "stop_count tr = length (filter (\<lambda>e. case e of Shell script cwd \<Rightarrow> script = wp_env_stop | ReadJSON f \<Rightarrow> False) tr)"

text \<open>The curated bundles of the rounds, metric by metric.\<close>

definition per_metric :: "'a WPPerformanceResults list \<Rightarrow> 'a list WPPerformanceResults" where
  "per_metric cs =
    \<lparr> serverResponse = map serverResponse cs,
      firstPaint = map firstPaint cs,
      domContentLoaded = map domContentLoaded cs,
      loaded = map loaded cs,
      firstContentfulPaint = map firstContentfulPaint cs,
      firstBlock = map firstBlock cs,
      type = map type cs,
      minType = map minType cs,
      maxType = map maxType cs,
      focus = map focus cs,
      minFocus = map minFocus cs,
      maxFocus = map maxFocus cs,
      inserterOpen = map inserterOpen cs,
      minInserterOpen = map minInserterOpen cs,
      maxInserterOpen = map maxInserterOpen cs,
      inserterSearch = map inserterSearch cs,
      minInserterSearch = map minInserterSearch cs,
      maxInserterSearch = map maxInserterSearch cs,
      inserterHover = map inserterHover cs,
      minInserterHover = map minInserterHover cs,
      maxInserterHover = map maxInserterHover cs,
      listViewOpen = map listViewOpen cs,
      minListViewOpen = map minListViewOpen cs,
      maxListViewOpen = map maxListViewOpen cs \<rparr>"

text \<open>
  The table of a suite as the specification describes it: under each ref, each metric
  is \<open>formatTime\<close> of the median of the values of the rounds.
\<close>

definition table_of ::
  "(string \<rightharpoonup> jsnum WPPerformanceResults) list \<Rightarrow> string list \<Rightarrow>
   (string \<rightharpoonup> jsnum WPPerformanceResults)" where
  "table_of rawResults refs ref =
     (if ref \<in> set refs
      then Some (mapValues (\<lambda>vs. formatTime (median vs))
                  (per_metric (map (\<lambda>r. the (r ref)) rawResults)))
      else None)"

text \<open>
  A world in which every script succeeds and every results file has the twelve keys.
\<close>

definition cooperative :: "world \<Rightarrow> bool" where
  "cooperative w \<longleftrightarrow>
     (\<forall>tr script cwd. shell_ok w tr script cwd) \<and>
     (\<forall>tr f. \<exists>raw. json_file w tr f = Some raw \<and> (\<forall>k\<in>set metricKeys. raw k \<noteq> None))"

subsection \<open>Example inputs\<close>

text \<open>A results file with the samples \<open>10, 20, 30\<close> under each of the twelve keys.\<close>

definition example_raw :: WPRawPerformanceResults where
  "example_raw k = (if k \<in> set metricKeys then Some [10, 20, 30] else None)"

text \<open>
  The binary64 values of the literals \<open>0.1\<close>, \<open>0.2\<close> and \<open>0.3\<close>, and a
  results file with these three samples under each key.
\<close>

definition tenths :: "real list" where
  "tenths = [3602879701896397 / 2 ^ 55, 3602879701896397 / 2 ^ 54, 5404319552844595 / 2 ^ 54]"

definition example_raw_tenths :: WPRawPerformanceResults where
  "example_raw_tenths k = (if k \<in> set metricKeys then Some tenths else None)"

text \<open>The same file with an empty array under each key.\<close>

definition example_raw_empty :: WPRawPerformanceResults where
  "example_raw_empty k = (if k \<in> set metricKeys then Some [] else None)"

text \<open>A store with one array, at address \<open>0\<close>.\<close>

definition example_store :: store where
  "example_store = \<lparr> cells = [0 \<mapsto> [Fin 3, Fin 1, Fin 2]], next_addr = 1 \<rparr>"

text \<open>
  Two worlds: in the first every step succeeds; in the second the environment starts
  and stops but the test command fails. The environment directories of two refs.
\<close>

definition example_world :: world where
  "example_world = \<lparr> shell_ok = (\<lambda>tr script cwd. True), json_file = (\<lambda>tr f. Some example_raw) \<rparr>"

definition failing_world :: world where
  "failing_world =
     \<lparr> shell_ok = (\<lambda>tr script cwd. script = wp_env_start \<or> script = wp_env_stop),
       json_file = (\<lambda>tr f. Some example_raw) \<rparr>"

definition example_dirs :: "string \<rightharpoonup> string" where
  "example_dirs = [''trunk'' \<mapsto> ''/tmp/envs/trunk'', ''feature-x'' \<mapsto> ''/tmp/envs/feature-x'']"

text \<open>What \<open>curateResults\<close> makes of \<open>example_raw\<close>.\<close>

definition example_curated :: "jsnum WPPerformanceResults" where
  "example_curated =
    \<lparr> serverResponse = Fin 20, firstPaint = Fin 20, domContentLoaded = Fin 20, loaded = Fin 20,
      firstContentfulPaint = Fin 20, firstBlock = Fin 20,
      type = Fin 20, minType = Fin 10, maxType = Fin 30,
      focus = Fin 20, minFocus = Fin 10, maxFocus = Fin 30,
      inserterOpen = Fin 20, minInserterOpen = Fin 10, maxInserterOpen = Fin 30,
      inserterSearch = Fin 20, minInserterSearch = Fin 10, maxInserterSearch = Fin 30,
      inserterHover = Fin 20, minInserterHover = Fin 10, maxInserterHover = Fin 30,
      listViewOpen = Fin 20, minListViewOpen = Fin 10, maxListViewOpen = Fin 30 \<rparr>"

subsection \<open>Invariants used in the proofs\<close>

text \<open>Every cell of the console table comes from a finite value of the table of the suite.\<close>

definition cells_ok ::
  "(string \<rightharpoonup> jsnum WPPerformanceResults) \<Rightarrow> (string \<rightharpoonup> (string \<rightharpoonup> string)) \<Rightarrow> bool" where
  "cells_ok table acc \<longleftrightarrow>
     (\<forall>entry row ref t. acc entry = Some row \<longrightarrow> row ref = Some t \<longrightarrow>
        (\<exists>val v. table ref = Some val \<and> (entry, v) \<in> set (entries val) \<and> isFinite v))"


text \<open>
  The order of the comparator on the numbers other than \<open>NaN\<close>, as a key into a
  linear order: \<open>-Infinity\<close>, the finite numbers, \<open>Infinity\<close>.
\<close>

definition js_key :: "jsnum \<Rightarrow> nat \<times> real" where
  "js_key v = (case v of NegInf \<Rightarrow> (0, 0) | Fin a \<Rightarrow> (1, a) | PosInf \<Rightarrow> (2, 0) | NaN \<Rightarrow> (3, 0))"


section \<open>Properties\<close>

subsection \<open>Rounding to binary64\<close>

lemma pow2_powr: "pow2 e = 2 powr (of_int e)"
proof (cases "0 \<le> e")
  case True
  then have "(2::real) powr (of_int e) = 2 powr (real (nat e))" by simp
  also have "\<dots> = 2 ^ nat e" by (rule powr_realpow) simp
  finally show ?thesis using True by (simp add: pow2_def)
next
  case False
  then have "(2::real) powr (of_int e) = 2 powr (- real (nat (- e)))" by simp
  also have "\<dots> = 1 / 2 powr (real (nat (- e)))" by (rule powr_minus_divide)
  also have "2 powr (real (nat (- e))) = (2::real) ^ nat (- e)" by (rule powr_realpow) simp
  finally show ?thesis using False by (simp add: pow2_def)
qed

lemma pow2_pos [simp]: "0 < pow2 e"
  by (simp add: pow2_powr)

lemma pow2_nonneg [simp]: "0 \<le> pow2 e"
  by (simp add: pow2_powr)

lemma pow2_add: "pow2 (a + b) = pow2 a * pow2 b"
  by (simp add: pow2_powr powr_add)

lemma pow2_less_iff [simp]: "pow2 a < pow2 b \<longleftrightarrow> a < b"
  by (simp add: pow2_powr)

lemma pow2_le_iff [simp]: "pow2 a \<le> pow2 b \<longleftrightarrow> a \<le> b"
  by (simp add: pow2_powr)

lemma pow2_nonneg_int: "0 \<le> e \<Longrightarrow> pow2 e = of_int (2 ^ nat e)"
  by (simp add: pow2_def)

lemma binade_bounds:
  assumes "x \<noteq> 0"
  shows "pow2 (binade x) \<le> \<bar>x\<bar> \<and> \<bar>x\<bar> < pow2 (binade x + 1)"
proof (cases "1 \<le> \<bar>x\<bar>")
  case True
  define m where "m = \<lfloor>\<bar>x\<bar>\<rfloor>"
  have m: "0 < m" using True by (simp add: m_def)
  have b: "binade x = bitlen m - 1" using True by (simp add: binade_def m_def)
  from bitlen_bounds [OF m] have lo: "2 ^ nat (bitlen m - 1) \<le> m" and hi: "m < 2 ^ nat (bitlen m)"
    by simp_all
  from m have k: "1 \<le> bitlen m" by (simp add: bitlen_alt_def)
  have "pow2 (binade x) = of_int (2 ^ nat (bitlen m - 1))"
    using k by (simp add: b pow2_nonneg_int)
  also have "\<dots> \<le> of_int m" using lo by (simp only: of_int_le_iff)
  also have "\<dots> \<le> \<bar>x\<bar>" by (simp add: m_def)
  finally have 1: "pow2 (binade x) \<le> \<bar>x\<bar>" .
  from hi have "m + 1 \<le> 2 ^ nat (bitlen m)" by simp
  then have "real_of_int (m + 1) \<le> of_int (2 ^ nat (bitlen m))" by (simp only: of_int_le_iff)
  moreover have "\<bar>x\<bar> < real_of_int (m + 1)" unfolding m_def by linarith
  moreover have "pow2 (binade x + 1) = of_int (2 ^ nat (bitlen m))"
    using k by (simp add: b pow2_nonneg_int)
  ultimately have "\<bar>x\<bar> < pow2 (binade x + 1)" by simp
  with 1 show ?thesis by simp
next
  case False
  define y where "y = 1 / \<bar>x\<bar>"
  define m where "m = \<lceil>y\<rceil> - 1"
  from False assms have x: "0 < \<bar>x\<bar>" "\<bar>x\<bar> < 1" by simp_all
  then have y: "1 < y" by (simp add: y_def)
  then have m: "0 < m" unfolding m_def by linarith
  have b: "binade x = - bitlen m" using False by (simp add: binade_def m_def y_def)
  from bitlen_bounds [OF m] have lo: "2 ^ nat (bitlen m - 1) \<le> m" and hi: "m < 2 ^ nat (bitlen m)"
    by simp_all
  from m have k: "1 \<le> bitlen m" by (simp add: bitlen_alt_def)
  have my: "real_of_int m < y" "y \<le> real_of_int m + 1" unfolding m_def by linarith+
  from hi have "m + 1 \<le> 2 ^ nat (bitlen m)" by simp
  then have "real_of_int (m + 1) \<le> of_int (2 ^ nat (bitlen m))" by (simp only: of_int_le_iff)
  then have "real_of_int m + 1 \<le> 2 ^ nat (bitlen m)" by simp
  with my have yhi: "y \<le> 2 ^ nat (bitlen m)" by linarith
  from lo have "real_of_int (2 ^ nat (bitlen m - 1)) \<le> of_int m" by (simp only: of_int_le_iff)
  then have "(2::real) ^ nat (bitlen m - 1) \<le> of_int m" by simp
  with my have ylo: "2 ^ nat (bitlen m - 1) < y" by linarith
  have p1: "pow2 (binade x) = 1 / 2 ^ nat (bitlen m)"
    using k by (simp add: b pow2_def)
  have p2: "pow2 (binade x + 1) = 1 / 2 ^ nat (bitlen m - 1)"
  proof (cases "bitlen m = 1")
    case True
    then show ?thesis by (simp add: b pow2_def)
  next
    case False
    with k have "nat (- (- bitlen m + 1)) = nat (bitlen m - 1)" "\<not> 0 \<le> - bitlen m + 1" by simp_all
    then show ?thesis by (simp add: b pow2_def)
  qed
  have "1 / 2 ^ nat (bitlen m) \<le> \<bar>x\<bar>"
    using yhi x by (simp add: y_def field_simps)
  moreover have "\<bar>x\<bar> < 1 / 2 ^ nat (bitlen m - 1)"
    using ylo x by (simp add: y_def field_simps)
  ultimately show ?thesis by (simp add: p1 p2)
qed

lemma binade_unique:
  assumes "pow2 e \<le> \<bar>x\<bar>" "\<bar>x\<bar> < pow2 (e + 1)"
  shows "binade x = e"
proof -
  have "x \<noteq> 0"
  proof
    assume "x = 0"
    with assms(1) have "pow2 e \<le> 0" by simp
    with pow2_pos [of e] show False by linarith
  qed
  from binade_bounds [OF this] have b: "pow2 (binade x) \<le> \<bar>x\<bar>" "\<bar>x\<bar> < pow2 (binade x + 1)"
    by simp_all
  from assms(1) b(2) have "pow2 e < pow2 (binade x + 1)" by (rule le_less_trans)
  then have "e < binade x + 1" by (simp only: pow2_less_iff)
  moreover from b(1) assms(2) have "pow2 (binade x) < pow2 (e + 1)" by (rule le_less_trans)
  then have "binade x < e + 1" by (simp only: pow2_less_iff)
  ultimately show ?thesis by simp
qed

lemma round64_eval:
  assumes "pow2 e \<le> \<bar>x\<bar>" "\<bar>x\<bar> < pow2 (e + 1)" "- 1022 \<le> e"
  shows "round64 x =
    (let q = pow2 (e - 52); y = of_int (round_half_even (x / q)) * q
     in if pow2 1024 \<le> \<bar>y\<bar> then (if 0 < x then PosInf else NegInf) else Fin y)"
proof -
  have "x \<noteq> 0"
  proof
    assume "x = 0"
    with assms(1) have "pow2 e \<le> 0" by simp
    with pow2_pos [of e] show False by linarith
  qed
  moreover have "expo x = e" using binade_unique [OF assms(1,2)] assms(3) by (simp add: expo_def)
  ultimately show ?thesis by (simp add: round64_def)
qed

lemma round_half_even_ge1: "1 \<le> y \<Longrightarrow> 1 \<le> round_half_even y"
proof -
  assume "1 \<le> y"
  then have "1 \<le> \<lfloor>y\<rfloor>" by simp
  then show ?thesis by (auto simp: round_half_even_def Let_def)
qed

lemma round_half_even_neg: "y < 0 \<Longrightarrow> round_half_even y \<le> 0"
proof -
  assume "y < 0"
  then have "\<lfloor>y\<rfloor> \<le> - 1" by (simp add: floor_le_iff)
  then show ?thesis by (auto simp: round_half_even_def Let_def)
qed

lemma expo_quantum_le:
  assumes "pow2 (- 1074) \<le> z"
  shows "pow2 (expo z - 52) \<le> z"
proof (cases "binade z \<le> - 1022")
  case True
  then have "expo z = - 1022" by (simp add: expo_def)
  with assms show ?thesis by simp
next
  case False
  then have e: "expo z = binade z" by (simp add: expo_def)
  from assms pow2_pos [of "- 1074"] have z: "0 < z" by linarith
  then have b: "pow2 (binade z) \<le> z" using binade_bounds [of z] by simp
  have a: "pow2 (binade z - 52) \<le> pow2 (binade z)" by simp
  from a b have "pow2 (binade z - 52) \<le> z" by (rule order_trans)
  then show ?thesis by (simp only: e)
qed

lemma round64_pos:
  assumes "pow2 (- 1074) \<le> z"
  shows "js_pos (round64 z)"
proof -
  define q where "q = pow2 (expo z - 52)"
  have q: "0 < q" by (simp add: q_def)
  from assms pow2_pos [of "- 1074"] have z: "0 < z" by linarith
  from expo_quantum_le [OF assms] q have "1 \<le> z / q" by (simp add: q_def)
  then have "1 \<le> round_half_even (z / q)" by (rule round_half_even_ge1)
  then have "1 \<le> real_of_int (round_half_even (z / q))" by simp
  with q have "0 < real_of_int (round_half_even (z / q)) * q" by simp
  with z show ?thesis by (simp add: round64_def Let_def q_def)
qed

lemma round64_nonpos:
  assumes "z \<le> 0"
  shows "\<not> js_pos (round64 z)"
proof (cases "z = 0")
  case True
  then show ?thesis by (simp add: round64_def)
next
  case False
  define q where "q = pow2 (expo z - 52)"
  have q: "0 < q" by (simp add: q_def)
  from False assms have z: "z < 0" by simp
  with q have "z / q < 0" by (simp add: divide_neg_pos)
  then have "round_half_even (z / q) \<le> 0" by (rule round_half_even_neg)
  then have "real_of_int (round_half_even (z / q)) \<le> 0" by simp
  with q have "real_of_int (round_half_even (z / q)) * q \<le> 0"
    by (simp add: mult_le_0_iff)
  with z show ?thesis by (simp add: round64_def Let_def q_def)
qed

lemma binary64_grid:
  assumes "round64 x = Fin x"
  shows "\<exists>k::int. x = of_int k * pow2 (- 1074)"
proof (cases "x = 0")
  case True
  then show ?thesis by (intro exI [of _ 0]) simp
next
  case False
  define n where "n = round_half_even (x / pow2 (expo x - 52))"
  from assms False have x: "x = of_int n * pow2 (expo x - 52)"
    by (simp add: round64_def Let_def n_def split: if_splits)
  have "- 1022 \<le> expo x" by (simp add: expo_def)
  then have "0 \<le> expo x + 1022" by simp
  have "pow2 (expo x - 52) = pow2 ((expo x + 1022) + (- 1074))" by simp
  also have "\<dots> = pow2 (expo x + 1022) * pow2 (- 1074)" by (rule pow2_add)
  also have "pow2 (expo x + 1022) = of_int (2 ^ nat (expo x + 1022))"
    using \<open>0 \<le> expo x + 1022\<close> by (rule pow2_nonneg_int)
  finally have "x = of_int (n * 2 ^ nat (expo x + 1022)) * pow2 (- 1074)"
    using x by simp
  then show ?thesis ..
qed

lemma sub_sign:
  assumes "round64 a = Fin a" "round64 b = Fin b"
  shows "js_pos (round64 (a - b)) \<longleftrightarrow> b < a"
proof (cases "b < a")
  case False
  then have "a - b \<le> 0" by simp
  from round64_nonpos [OF this] False show ?thesis by simp
next
  case True
  from binary64_grid [OF assms(1)] obtain k :: int where k: "a = of_int k * pow2 (- 1074)" ..
  from binary64_grid [OF assms(2)] obtain l :: int where l: "b = of_int l * pow2 (- 1074)" ..
  from True have "of_int l * pow2 (- 1074) < of_int k * pow2 (- 1074)" by (simp only: k l)
  then have "real_of_int l < of_int k" by simp
  then have "l < k" by simp
  then have "1 \<le> k - l" by simp
  then have "1 \<le> real_of_int (k - l)" by (simp only: of_int_1_le_iff)
  then have "1 * pow2 (- 1074) \<le> real_of_int (k - l) * pow2 (- 1074)"
    by (intro mult_right_mono) simp_all
  then have "pow2 (- 1074) \<le> a - b" by (simp add: k l algebra_simps)
  from round64_pos [OF this] True show ?thesis by simp
qed

lemma round64_0 [simp]: "round64 0 = Fin 0"
  by (simp add: round64_def)

text \<open>Binary64 values that the examples use.\<close>

lemma round64_values:
  "round64 1 = Fin 1" "round64 2 = Fin 2" "round64 3 = Fin 3" "round64 4 = Fin 4"
  "round64 5 = Fin 5" "round64 (5 / 2) = Fin (5 / 2)"
  "round64 10 = Fin 10" "round64 20 = Fin 20" "round64 30 = Fin 30" "round64 60 = Fin 60"
  "round64 1000 = Fin 1000" "round64 2000 = Fin 2000" "round64 3000 = Fin 3000"
  using round64_eval [of 0 1] round64_eval [of 1 2] round64_eval [of 1 3] round64_eval [of 2 4]
    round64_eval [of 2 5] round64_eval [of 1 "5 / 2"]
    round64_eval [of 3 10] round64_eval [of 4 20] round64_eval [of 4 30] round64_eval [of 5 60]
    round64_eval [of 9 1000] round64_eval [of 10 2000] round64_eval [of 11 3000]
  by (simp_all add: pow2_def round_half_even_def Let_def)

lemma comparefn_Fin:
  "round64 a = Fin a \<Longrightarrow> round64 b = Fin b \<Longrightarrow> js_pos (comparefn (Fin a) (Fin b)) = (b < a)"
  by (simp add: comparefn_def js_sub_def sub_sign)

subsection \<open>Averages, minima and maxima\<close>

lemma foldl_add_exact:
  "exact_sums s xs \<Longrightarrow> foldl js_add (Fin s) (map Fin xs) = Fin (s + sum_list xs)"
  by (induction xs arbitrary: s) (auto simp: algebra_simps)

lemma average_exact:
  assumes "exact_average xs"
  shows "average (map Fin xs) = Fin (arithmetic_mean xs)"
proof -
  from assms have ne: "xs \<noteq> []" and sums: "exact_sums 0 xs"
    and q: "round64 (arithmetic_mean xs) = Fin (arithmetic_mean xs)"
    by (simp_all add: exact_average_def)
  have "average (map Fin xs) = js_div (Fin (sum_list xs)) (Fin (real (length xs)))"
    using foldl_add_exact [OF sums] by (simp add: average_def)
  also have "\<dots> = round64 (sum_list xs / real (length xs))"
    using ne by simp
  finally show ?thesis using q by (simp add: arithmetic_mean_def)
qed

lemma exact_average_10_20_30: "exact_average [10, 20, 30]"
  by (simp add: exact_average_def arithmetic_mean_def round64_values)

lemma foldl_min_Fin: "foldl js_min2 (Fin a) (map Fin xs) = Fin (fold min xs a)"
  by (induction xs arbitrary: a) (auto simp: min_def)

lemma foldl_max_Fin: "foldl js_max2 (Fin a) (map Fin xs) = Fin (fold max xs a)"
  by (induction xs arbitrary: a) (auto simp: max_def)

lemma Math_min_Fin:
  assumes "xs \<noteq> []"
  shows "Math_min (map Fin xs) = Fin (Min (set xs))"
proof -
  from assms obtain y ys where xs: "xs = y # ys" by (cases xs) auto
  have "Math_min (map Fin xs) = Fin (fold min ys y)"
    by (simp add: xs Math_min_def foldl_min_Fin)
  also have "fold min ys y = Min (set xs)"
    unfolding xs by (rule Min.set_eq_fold [symmetric])
  finally show ?thesis .
qed

lemma Math_max_Fin:
  assumes "xs \<noteq> []"
  shows "Math_max (map Fin xs) = Fin (Max (set xs))"
proof -
  from assms obtain y ys where xs: "xs = y # ys" by (cases xs) auto
  have "Math_max (map Fin xs) = Fin (fold max ys y)"
    by (simp add: xs Math_max_def foldl_max_Fin)
  also have "fold max ys y = Max (set xs)"
    unfolding xs by (rule Max.set_eq_fold [symmetric])
  finally show ?thesis .
qed

lemma in_metricKeys:
  "''serverResponse'' \<in> set metricKeys" "''firstPaint'' \<in> set metricKeys"
  "''domContentLoaded'' \<in> set metricKeys" "''loaded'' \<in> set metricKeys"
  "''firstContentfulPaint'' \<in> set metricKeys" "''firstBlock'' \<in> set metricKeys"
  "''type'' \<in> set metricKeys" "''focus'' \<in> set metricKeys"
  "''inserterOpen'' \<in> set metricKeys" "''inserterSearch'' \<in> set metricKeys"
  "''inserterHover'' \<in> set metricKeys" "''listViewOpen'' \<in> set metricKeys"
  by (simp_all add: metricKeys_def)



lemma first_error_Inr: "first_error (map (\<lambda>(k, v). (k, Inr v)) kvs) = None"
  by (induction kvs) auto

lemma entries_mapValues: "entries (mapValues f r) = map (\<lambda>(k, v). (k, f v)) (entries r)"
  by (simp add: entries_def mapValues_def)

lemma mapValues_mapValues: "mapValues f (mapValues g r) = mapValues (\<lambda>x. f (g x)) r"
  by (simp add: mapValues_def)

lemma mapValues_id: "mapValues (\<lambda>x. x) r = r"
  by (simp add: mapValues_def)

lemma object_literal_Inr: "object_literal (mapValues Inr r) = Inr r"
  by (simp add: object_literal_def entries_mapValues first_error_Inr mapValues_mapValues mapValues_id)

subsection \<open>\<open>curateResults\<close>: present and absent keys\<close>

lemma average_of_present:
  "array \<noteq> None \<Longrightarrow> average_of array = Inr (average (map Fin (the array)))"
  by (auto simp: average_of_def)

lemma min_of_present:
  "array \<noteq> None \<Longrightarrow> min_of array = Inr (Math_min (map Fin (the array)))"
  by (auto simp: min_of_def)

lemma max_of_present:
  "array \<noteq> None \<Longrightarrow> max_of array = Inr (Math_max (map Fin (the array)))"
  by (auto simp: max_of_def)

lemma curateResults_present:
  assumes "\<forall>k\<in>set metricKeys. results k \<noteq> None"
  shows "curateResults results = Inr
    \<lparr> serverResponse = average (map Fin (the (results ''serverResponse''))),
      firstPaint = average (map Fin (the (results ''firstPaint''))),
      domContentLoaded = average (map Fin (the (results ''domContentLoaded''))),
      loaded = average (map Fin (the (results ''loaded''))),
      firstContentfulPaint = average (map Fin (the (results ''firstContentfulPaint''))),
      firstBlock = average (map Fin (the (results ''firstBlock''))),
      type = average (map Fin (the (results ''type''))),
      minType = Math_min (map Fin (the (results ''type''))),
      maxType = Math_max (map Fin (the (results ''type''))),
      focus = average (map Fin (the (results ''focus''))),
      minFocus = Math_min (map Fin (the (results ''focus''))),
      maxFocus = Math_max (map Fin (the (results ''focus''))),
      inserterOpen = average (map Fin (the (results ''inserterOpen''))),
      minInserterOpen = Math_min (map Fin (the (results ''inserterOpen''))),
      maxInserterOpen = Math_max (map Fin (the (results ''inserterOpen''))),
      inserterSearch = average (map Fin (the (results ''inserterSearch''))),
      minInserterSearch = Math_min (map Fin (the (results ''inserterSearch''))),
      maxInserterSearch = Math_max (map Fin (the (results ''inserterSearch''))),
      inserterHover = average (map Fin (the (results ''inserterHover''))),
      minInserterHover = Math_min (map Fin (the (results ''inserterHover''))),
      maxInserterHover = Math_max (map Fin (the (results ''inserterHover''))),
      listViewOpen = average (map Fin (the (results ''listViewOpen''))),
      minListViewOpen = Math_min (map Fin (the (results ''listViewOpen''))),
      maxListViewOpen = Math_max (map Fin (the (results ''listViewOpen''))) \<rparr>"
    (is "_ = Inr ?R")
proof -
  have p: "results k \<noteq> None" if "k \<in> set metricKeys" for k
    using assms that by simp
  note ps = in_metricKeys [THEN p]
  note facts = ps [THEN average_of_present] ps(7-12) [THEN min_of_present]
    ps(7-12) [THEN max_of_present]
  have "curateResults results = object_literal (mapValues Inr ?R)"
    unfolding curateResults_def facts by (simp add: mapValues_def)
  then show ?thesis by (simp only: object_literal_Inr)
qed

lemma curateResults_missing:
  assumes "\<exists>k\<in>set metricKeys. results k = None"
  shows "curateResults results = Inl (TypeError ''reduce'')"
  using assms
  unfolding curateResults_def object_literal_def entries_def metricKeys_def
  by (simp add: average_of_def min_of_def max_of_def split: option.splits) fastforce

subsection \<open>\<open>curateResults\<close> on a complete bundle\<close>

text \<open>
  C6, as amended. When the raw bundle has all twelve keys and no sample array is empty,
  \<open>curateResults\<close> returns, under each of the twelve keys, the average of the samples
  as \<open>average\<close> computes it in binary64 (the sum from the left, each addition rounded
  to the nearest binary64 value, divided by the number of samples and rounded), which
  is the arithmetic mean whenever the partial sums and the quotient are binary64
  values; and the minimum and the maximum of the samples, exactly, under the keys
  \<open>minX\<close> and \<open>maxX\<close> for exactly \<open>type\<close>, \<open>focus\<close>, \<open>inserterOpen\<close>,
  \<open>inserterSearch\<close>, \<open>inserterHover\<close> and \<open>listViewOpen\<close>. With the samples
  \<open>[10, 20, 30]\<close> under \<open>type\<close> the bundle has \<open>type = 20\<close>,
  \<open>minType = 10\<close> and \<open>maxType = 30\<close>.
\<close>

theorem curateResults_averages:
  assumes "\<forall>k\<in>set metricKeys. \<exists>xs. results k = Some xs \<and> xs \<noteq> []"
  shows "curateResults results = Inr
    \<lparr> serverResponse = average (map Fin (the (results ''serverResponse''))),
      firstPaint = average (map Fin (the (results ''firstPaint''))),
      domContentLoaded = average (map Fin (the (results ''domContentLoaded''))),
      loaded = average (map Fin (the (results ''loaded''))),
      firstContentfulPaint = average (map Fin (the (results ''firstContentfulPaint''))),
      firstBlock = average (map Fin (the (results ''firstBlock''))),
      type = average (map Fin (the (results ''type''))),
      minType = Fin (Min (set (the (results ''type'')))),
      maxType = Fin (Max (set (the (results ''type'')))),
      focus = average (map Fin (the (results ''focus''))),
      minFocus = Fin (Min (set (the (results ''focus'')))),
      maxFocus = Fin (Max (set (the (results ''focus'')))),
      inserterOpen = average (map Fin (the (results ''inserterOpen''))),
      minInserterOpen = Fin (Min (set (the (results ''inserterOpen'')))),
      maxInserterOpen = Fin (Max (set (the (results ''inserterOpen'')))),
      inserterSearch = average (map Fin (the (results ''inserterSearch''))),
      minInserterSearch = Fin (Min (set (the (results ''inserterSearch'')))),
      maxInserterSearch = Fin (Max (set (the (results ''inserterSearch'')))),
      inserterHover = average (map Fin (the (results ''inserterHover''))),
      minInserterHover = Fin (Min (set (the (results ''inserterHover'')))),
      maxInserterHover = Fin (Max (set (the (results ''inserterHover'')))),
      listViewOpen = average (map Fin (the (results ''listViewOpen''))),
      minListViewOpen = Fin (Min (set (the (results ''listViewOpen'')))),
      maxListViewOpen = Fin (Max (set (the (results ''listViewOpen'')))) \<rparr>
    \<and> (\<forall>k\<in>set metricKeys. exact_average (the (results k)) \<longrightarrow>
          average (map Fin (the (results k))) = Fin (arithmetic_mean (the (results k))))
    \<and> (results ''type'' = Some [10, 20, 30] \<longrightarrow>
        (\<exists>c. curateResults results = Inr c \<and> type c = Fin 20 \<and> minType c = Fin 10 \<and> maxType c = Fin 30))"
proof -
  have p: "\<forall>k\<in>set metricKeys. results k \<noteq> None"
    using assms by auto
  have ne: "the (results k) \<noteq> []" if "k \<in> set metricKeys" for k
    using assms that by auto
  note nes = in_metricKeys(7-12) [THEN ne]
  have main: "curateResults results = Inr
    \<lparr> serverResponse = average (map Fin (the (results ''serverResponse''))),
      firstPaint = average (map Fin (the (results ''firstPaint''))),
      domContentLoaded = average (map Fin (the (results ''domContentLoaded''))),
      loaded = average (map Fin (the (results ''loaded''))),
      firstContentfulPaint = average (map Fin (the (results ''firstContentfulPaint''))),
      firstBlock = average (map Fin (the (results ''firstBlock''))),
      type = average (map Fin (the (results ''type''))),
      minType = Fin (Min (set (the (results ''type'')))),
      maxType = Fin (Max (set (the (results ''type'')))),
      focus = average (map Fin (the (results ''focus''))),
      minFocus = Fin (Min (set (the (results ''focus'')))),
      maxFocus = Fin (Max (set (the (results ''focus'')))),
      inserterOpen = average (map Fin (the (results ''inserterOpen''))),
      minInserterOpen = Fin (Min (set (the (results ''inserterOpen'')))),
      maxInserterOpen = Fin (Max (set (the (results ''inserterOpen'')))),
      inserterSearch = average (map Fin (the (results ''inserterSearch''))),
      minInserterSearch = Fin (Min (set (the (results ''inserterSearch'')))),
      maxInserterSearch = Fin (Max (set (the (results ''inserterSearch'')))),
      inserterHover = average (map Fin (the (results ''inserterHover''))),
      minInserterHover = Fin (Min (set (the (results ''inserterHover'')))),
      maxInserterHover = Fin (Max (set (the (results ''inserterHover'')))),
      listViewOpen = average (map Fin (the (results ''listViewOpen''))),
      minListViewOpen = Fin (Min (set (the (results ''listViewOpen'')))),
      maxListViewOpen = Fin (Max (set (the (results ''listViewOpen'')))) \<rparr>"
    unfolding curateResults_present [OF p] nes [THEN Math_min_Fin] nes [THEN Math_max_Fin] ..
  have ex: "\<forall>k\<in>set metricKeys. exact_average (the (results k)) \<longrightarrow>
          average (map Fin (the (results k))) = Fin (arithmetic_mean (the (results k)))"
    by (simp add: average_exact)
  have "average (map Fin [10, 20, 30]) = Fin 20" "Min (set [10, 20, 30 :: real]) = 10"
    "Max (set [10, 20, 30 :: real]) = 30"
    using average_exact [OF exact_average_10_20_30] by (simp_all add: arithmetic_mean_def)
  then have ty: "results ''type'' = Some [10, 20, 30] \<longrightarrow>
        (\<exists>c. curateResults results = Inr c \<and> type c = Fin 20 \<and> minType c = Fin 10 \<and> maxType c = Fin 30)"
    unfolding main by simp
  from main ex ty show ?thesis by (intro conjI)
qed

theorem curateResults_averages_witness:
  "list_all (\<lambda>k. \<exists>xs. example_raw k = Some xs \<and> xs \<noteq> []) metricKeys \<and>
   exact_average (the (example_raw ''type'')) \<and>
   curateResults example_raw = Inr example_curated"
proof -
  have h: "\<forall>k\<in>set metricKeys. \<exists>xs. example_raw k = Some xs \<and> xs \<noteq> []"
    by (simp add: example_raw_def)
  have v: "the (example_raw k) = [10, 20, 30]" if "k \<in> set metricKeys" for k
    using that by (simp add: example_raw_def)
  note vs = in_metricKeys [THEN v]
  note t = curateResults_averages [OF h]
  have e: "exact_average (the (example_raw k))" if "k \<in> set metricKeys" for k
    using that by (simp add: v exact_average_10_20_30)
  have a: "average (map Fin (the (example_raw k))) = Fin 20" if "k \<in> set metricKeys" for k
  proof -
    have "average (map Fin (the (example_raw k))) = Fin (arithmetic_mean (the (example_raw k)))"
      by (rule t [THEN conjunct2, THEN conjunct1, rule_format, OF that e [OF that]])
    then show ?thesis by (simp add: v [OF that] arithmetic_mean_def)
  qed
  note as = in_metricKeys [THEN a]
  have m: "Min (set [10, 20, 30 :: real]) = 10" "Max (set [10, 20, 30 :: real]) = 30"
    by simp_all
  from t have "curateResults example_raw = Inr example_curated"
    unfolding as unfolding vs m example_curated_def by (rule conjunct1)
  moreover have "list_all (\<lambda>k. \<exists>xs. example_raw k = Some xs \<and> xs \<noteq> []) metricKeys"
    using h by (simp add: list_all_iff)
  ultimately show ?thesis using e [OF in_metricKeys(7)] by (intro conjI)
qed

text \<open>
  C6 as stated asks for the arithmetic average. With the binary64 values of
  \<open>0.1\<close>, \<open>0.2\<close> and \<open>0.3\<close> as samples, two of the three roundings are inexact:
  the average is \<open>0.20000000000000004\<close>, which is neither the arithmetic mean of the
  three samples nor the binary64 value nearest to it (that of \<open>0.2\<close>).
\<close>

theorem curateResults_average_counterexample:
  "map_sum id serverResponse (curateResults example_raw_tenths)
     = Inr (Fin (7205759403792795 / 2 ^ 55))
   \<and> map_sum id serverResponse (curateResults example_raw_tenths)
     \<noteq> Inr (Fin (arithmetic_mean tenths))
   \<and> arithmetic_mean tenths = 21617278211378381 / (3 * 2 ^ 55)
   \<and> round64 (arithmetic_mean tenths) = Fin (3602879701896397 / 2 ^ 54)"
proof -
  have h: "\<forall>k\<in>set metricKeys. example_raw_tenths k \<noteq> None"
    by (simp add: example_raw_tenths_def)
  have v: "the (example_raw_tenths ''serverResponse'') = tenths"
    using in_metricKeys(1) by (simp add: example_raw_tenths_def)
  have avg: "average (map Fin tenths) = Fin (7205759403792795 / 2 ^ 55)"
    using round64_eval [of "- 4" "3602879701896397 / 2 ^ 55"]
      round64_eval [of "- 2" "3602879701896397 / 2 ^ 55 + 3602879701896397 / 2 ^ 54"]
      round64_eval [of "- 1" "1351079888211149 / 2 ^ 52 + 5404319552844595 / 2 ^ 54"]
      round64_eval [of "- 3" "1351079888211149 / 2 ^ 51 / 3"]
    by (simp add: average_def tenths_def pow2_def round_half_even_def Let_def)
  have sr: "map_sum id serverResponse (curateResults example_raw_tenths)
     = Inr (Fin (7205759403792795 / 2 ^ 55))"
    unfolding curateResults_present [OF h] by (simp add: v avg)
  have mean: "arithmetic_mean tenths = 21617278211378381 / (3 * 2 ^ 55)"
    by (simp add: arithmetic_mean_def tenths_def)
  have near: "round64 (arithmetic_mean tenths) = Fin (3602879701896397 / 2 ^ 54)"
    unfolding mean
    using round64_eval [of "- 3" "21617278211378381 / (3 * 2 ^ 55)"]
    by (simp add: pow2_def round_half_even_def Let_def)
  have ne: "map_sum id serverResponse (curateResults example_raw_tenths)
     \<noteq> Inr (Fin (arithmetic_mean tenths))"
    unfolding sr mean by simp
  from sr ne mean near show ?thesis by (intro conjI)
qed

text \<open>
  The sum can also overflow: the average of two samples \<open>2 ^ 1023\<close> is
  \<open>Infinity\<close>.
\<close>

lemma average_overflow: "average [Fin (2 ^ 1023), Fin (2 ^ 1023)] = PosInf"
  using round64_eval [of 1023 "2 ^ 1023"] round64_eval [of 1024 "2 ^ 1023 + 2 ^ 1023"]
  by (simp add: average_def pow2_def round_half_even_def Let_def)

subsection \<open>The console table holds finite values only\<close>

lemma cells_ok_empty: "cells_ok table Map.empty"
  by (simp add: cells_ok_def)

lemma cells_ok_invert_entry:
  assumes "cells_ok table acc" "table key = Some val" "ev \<in> set (entries val)"
  shows "cells_ok table (invert_entry toString key acc ev)"
proof -
  obtain entry v where ev: "ev = (entry, v)" by (cases ev)
  show ?thesis
  proof (cases "isFinite v")
    case False
    then show ?thesis using assms(1) by (simp add: invert_entry_def ev)
  next
    case True
    define row0 where "row0 = (case acc entry of None \<Rightarrow> Map.empty | Some row \<Rightarrow> row)"
    have step: "invert_entry toString key acc ev = acc(entry \<mapsto> row0(key \<mapsto> toString v @ '' ms''))"
      using True by (auto simp: invert_entry_def ev row0_def Let_def split: option.splits)
    have row0: "row0 ref = Some t \<Longrightarrow>
        \<exists>val v. table ref = Some val \<and> (entry, v) \<in> set (entries val) \<and> isFinite v" for ref t
      using assms(1) by (auto simp: row0_def cells_ok_def split: option.splits)
    show ?thesis
      unfolding step cells_ok_def
    proof (intro allI impI)
      fix e row ref t
      assume a: "(acc(entry \<mapsto> row0(key \<mapsto> toString v @ '' ms''))) e = Some row"
        and b: "row ref = Some t"
      show "\<exists>val v. table ref = Some val \<and> (e, v) \<in> set (entries val) \<and> isFinite v"
      proof (cases "e = entry")
        case False
        with a b assms(1) show ?thesis by (auto simp: cells_ok_def)
      next
        case e: True
        with a have row: "row = row0(key \<mapsto> toString v @ '' ms'')" by simp
        show ?thesis
        proof (cases "ref = key")
          case True
          with assms(2,3) \<open>isFinite v\<close> e ev show ?thesis by auto
        next
          case False
          with row b have "row0 ref = Some t" by simp
          from row0 [OF this] e show ?thesis by simp
        qed
      qed
    qed
  qed
qed

lemma cells_ok_entries:
  assumes "cells_ok table acc" "table key = Some val" "set evs \<subseteq> set (entries val)"
  shows "cells_ok table (foldl (invert_entry toString key) acc evs)"
  using assms
proof (induction evs arbitrary: acc)
  case Nil
  then show ?case by simp
next
  case (Cons ev evs)
  from Cons.prems have "cells_ok table (invert_entry toString key acc ev)"
    by (intro cells_ok_invert_entry) auto
  with Cons show ?case by simp
qed

lemma Object_entries_sound: "(k, v) \<in> set (Object_entries obj keys) \<Longrightarrow> obj k = Some v"
  by (auto simp: Object_entries_def split: option.splits)

lemma cells_ok_refs:
  assumes "cells_ok table acc" "\<forall>(key, val)\<in>set kvs. table key = Some val"
  shows "cells_ok table
    (foldl (\<lambda>acc (key, val). foldl (invert_entry toString key) acc (entries val)) acc kvs)"
  using assms
proof (induction kvs arbitrary: acc)
  case Nil
  then show ?case by simp
next
  case (Cons kv kvs)
  obtain key val where kv: "kv = (key, val)" by (cases kv)
  from Cons.prems have "table key = Some val" by (simp add: kv)
  with Cons.prems(1) have "cells_ok table (foldl (invert_entry toString key) acc (entries val))"
    by (intro cells_ok_entries) auto
  with Cons show ?case by (simp add: kv)
qed

lemma cells_ok_invertedResult: "cells_ok table (invertedResult toString table keys)"
  unfolding invertedResult_def
  by (rule cells_ok_refs [OF cells_ok_empty]) (auto dest: Object_entries_sound)

lemma distinct_entries: "distinct (map fst (entries val))"
  by (simp add: entries_def)

lemma invertedResult_finite_only:
  assumes "table ref = Some val" "(entry, v) \<in> set (entries val)" "\<not> isFinite v"
    and "invertedResult toString table keys entry = Some row"
  shows "row ref = None"
proof (rule ccontr)
  assume "row ref \<noteq> None"
  then obtain t where "row ref = Some t" by auto
  with assms(4) cells_ok_invertedResult [of table toString keys]
  obtain val' v' where "table ref = Some val'" "(entry, v') \<in> set (entries val')" "isFinite v'"
    unfolding cells_ok_def by blast
  with assms(1) have "(entry, v') \<in> set (entries val)" by simp
  with assms(2) distinct_entries [of val] have "v' = v"
    by (meson eq_key_imp_eq_value)
  with \<open>isFinite v'\<close> assms(3) show False by simp
qed

lemma average_Nil: "average [] = NaN"
  by (simp add: average_def)

lemma Math_min_Nil: "Math_min [] = PosInf"
  by (simp add: Math_min_def)

lemma Math_max_Nil: "Math_max [] = NegInf"
  by (simp add: Math_max_def)

subsection \<open>A missing key\<close>

text \<open>
  C3, as amended. When the raw bundle lacks at least one of the twelve keys,
  \<open>curateResults\<close> throws and returns no bundle, not even a partial one. The error
  is the \<open>TypeError\<close> of \<open>average\<close> reading \<open>reduce\<close> of \<open>undefined\<close>: it is
  the same whichever key is absent and does not name the metric.
\<close>

theorem curateResults_missing_key:
  assumes "\<exists>k\<in>set metricKeys. results k = None"
  shows "curateResults results = Inl (TypeError ''reduce'') \<and> (\<forall>c. curateResults results \<noteq> Inr c)"
  using curateResults_missing [OF assms] by simp

theorem curateResults_missing_key_witness:
  "(\<exists>k\<in>set metricKeys. (example_raw(''loaded'' := None)) k = None) \<and>
   curateResults (example_raw(''loaded'' := None)) = Inl (TypeError ''reduce'')"
proof -
  have h: "\<exists>k\<in>set metricKeys. (example_raw(''loaded'' := None)) k = None"
    using in_metricKeys(4) by (intro bexI [of _ "''loaded''"]) simp_all
  from curateResults_missing_key [OF h]
  have "curateResults (example_raw(''loaded'' := None)) = Inl (TypeError ''reduce'')"
    by (rule conjunct1)
  with h show ?thesis by (rule conjI)
qed

text \<open>
  C3 as stated asks for an error that identifies the absent metric. The error for a
  bundle without \<open>type\<close> and the error for a bundle without \<open>focus\<close> are the same
  value.
\<close>

theorem curateResults_missing_metric_counterexample:
  "curateResults (example_raw(''type'' := None)) = Inl (TypeError ''reduce'') \<and>
   curateResults (example_raw(''focus'' := None)) = Inl (TypeError ''reduce'')"
proof -
  have "\<exists>k\<in>set metricKeys. (example_raw(''type'' := None)) k = None"
    using in_metricKeys(7) by (intro bexI [of _ "''type''"]) simp_all
  moreover have "\<exists>k\<in>set metricKeys. (example_raw(''focus'' := None)) k = None"
    using in_metricKeys(8) by (intro bexI [of _ "''focus''"]) simp_all
  ultimately show ?thesis by (simp add: curateResults_missing)
qed

subsection \<open>Empty sample arrays\<close>

lemma curateResults_present_fields:
  assumes "\<forall>k\<in>set metricKeys. results k \<noteq> None"
  shows "\<exists>c. curateResults results = Inr c
    \<and> serverResponse c = average (map Fin (the (results ''serverResponse'')))
    \<and> firstPaint c = average (map Fin (the (results ''firstPaint'')))
    \<and> domContentLoaded c = average (map Fin (the (results ''domContentLoaded'')))
    \<and> loaded c = average (map Fin (the (results ''loaded'')))
    \<and> firstContentfulPaint c = average (map Fin (the (results ''firstContentfulPaint'')))
    \<and> firstBlock c = average (map Fin (the (results ''firstBlock'')))
    \<and> type c = average (map Fin (the (results ''type'')))
    \<and> minType c = Math_min (map Fin (the (results ''type'')))
    \<and> maxType c = Math_max (map Fin (the (results ''type'')))
    \<and> focus c = average (map Fin (the (results ''focus'')))
    \<and> minFocus c = Math_min (map Fin (the (results ''focus'')))
    \<and> maxFocus c = Math_max (map Fin (the (results ''focus'')))
    \<and> inserterOpen c = average (map Fin (the (results ''inserterOpen'')))
    \<and> minInserterOpen c = Math_min (map Fin (the (results ''inserterOpen'')))
    \<and> maxInserterOpen c = Math_max (map Fin (the (results ''inserterOpen'')))
    \<and> inserterSearch c = average (map Fin (the (results ''inserterSearch'')))
    \<and> minInserterSearch c = Math_min (map Fin (the (results ''inserterSearch'')))
    \<and> maxInserterSearch c = Math_max (map Fin (the (results ''inserterSearch'')))
    \<and> inserterHover c = average (map Fin (the (results ''inserterHover'')))
    \<and> minInserterHover c = Math_min (map Fin (the (results ''inserterHover'')))
    \<and> maxInserterHover c = Math_max (map Fin (the (results ''inserterHover'')))
    \<and> listViewOpen c = average (map Fin (the (results ''listViewOpen'')))
    \<and> minListViewOpen c = Math_min (map Fin (the (results ''listViewOpen'')))
    \<and> maxListViewOpen c = Math_max (map Fin (the (results ''listViewOpen'')))"
  by (simp add: curateResults_present [OF assms])

text \<open>
  C10. When all twelve keys are present, \<open>curateResults\<close> returns a bundle, also
  when a sample array is empty: the average of an empty array is \<open>NaN\<close> (\<open>0 / 0\<close>)
  and, for the six metrics with a minimum and a maximum, the minimum is \<open>Infinity\<close>
  and the maximum \<open>-Infinity\<close>. None of the three values is finite, and the console
  table has no cell for a value of the table of a suite that is not finite.
\<close>

theorem curateResults_empty_samples:
  assumes "\<forall>k\<in>set metricKeys. results k \<noteq> None"
  shows "\<exists>c. curateResults results = Inr c
    \<and> (results ''serverResponse'' = Some [] \<longrightarrow> serverResponse c = NaN)
    \<and> (results ''firstPaint'' = Some [] \<longrightarrow> firstPaint c = NaN)
    \<and> (results ''domContentLoaded'' = Some [] \<longrightarrow> domContentLoaded c = NaN)
    \<and> (results ''loaded'' = Some [] \<longrightarrow> loaded c = NaN)
    \<and> (results ''firstContentfulPaint'' = Some [] \<longrightarrow> firstContentfulPaint c = NaN)
    \<and> (results ''firstBlock'' = Some [] \<longrightarrow> firstBlock c = NaN)
    \<and> (results ''type'' = Some [] \<longrightarrow> type c = NaN \<and> minType c = PosInf \<and> maxType c = NegInf)
    \<and> (results ''focus'' = Some [] \<longrightarrow> focus c = NaN \<and> minFocus c = PosInf \<and> maxFocus c = NegInf)
    \<and> (results ''inserterOpen'' = Some [] \<longrightarrow>
          inserterOpen c = NaN \<and> minInserterOpen c = PosInf \<and> maxInserterOpen c = NegInf)
    \<and> (results ''inserterSearch'' = Some [] \<longrightarrow>
          inserterSearch c = NaN \<and> minInserterSearch c = PosInf \<and> maxInserterSearch c = NegInf)
    \<and> (results ''inserterHover'' = Some [] \<longrightarrow>
          inserterHover c = NaN \<and> minInserterHover c = PosInf \<and> maxInserterHover c = NegInf)
    \<and> (results ''listViewOpen'' = Some [] \<longrightarrow>
          listViewOpen c = NaN \<and> minListViewOpen c = PosInf \<and> maxListViewOpen c = NegInf)
    \<and> \<not> isFinite NaN \<and> \<not> isFinite PosInf \<and> \<not> isFinite NegInf
    \<and> (\<forall>toString table keys ref val entry v row.
          table ref = Some val \<longrightarrow> (entry, v) \<in> set (entries val) \<longrightarrow> \<not> isFinite v \<longrightarrow>
          invertedResult toString table keys entry = Some row \<longrightarrow> row ref = None)"
proof -
  have view: "\<forall>toString table keys ref val entry v row.
          table ref = Some val \<longrightarrow> (entry, v) \<in> set (entries val) \<longrightarrow> \<not> isFinite v \<longrightarrow>
          invertedResult toString table keys entry = Some row \<longrightarrow> row ref = None"
    using invertedResult_finite_only by blast
  from curateResults_present_fields [OF assms]
  obtain c where c: "curateResults results = Inr c"
    and f: "serverResponse c = average (map Fin (the (results ''serverResponse'')))"
      "firstPaint c = average (map Fin (the (results ''firstPaint'')))"
      "domContentLoaded c = average (map Fin (the (results ''domContentLoaded'')))"
      "loaded c = average (map Fin (the (results ''loaded'')))"
      "firstContentfulPaint c = average (map Fin (the (results ''firstContentfulPaint'')))"
      "firstBlock c = average (map Fin (the (results ''firstBlock'')))"
      "type c = average (map Fin (the (results ''type'')))"
      "minType c = Math_min (map Fin (the (results ''type'')))"
      "maxType c = Math_max (map Fin (the (results ''type'')))"
      "focus c = average (map Fin (the (results ''focus'')))"
      "minFocus c = Math_min (map Fin (the (results ''focus'')))"
      "maxFocus c = Math_max (map Fin (the (results ''focus'')))"
      "inserterOpen c = average (map Fin (the (results ''inserterOpen'')))"
      "minInserterOpen c = Math_min (map Fin (the (results ''inserterOpen'')))"
      "maxInserterOpen c = Math_max (map Fin (the (results ''inserterOpen'')))"
      "inserterSearch c = average (map Fin (the (results ''inserterSearch'')))"
      "minInserterSearch c = Math_min (map Fin (the (results ''inserterSearch'')))"
      "maxInserterSearch c = Math_max (map Fin (the (results ''inserterSearch'')))"
      "inserterHover c = average (map Fin (the (results ''inserterHover'')))"
      "minInserterHover c = Math_min (map Fin (the (results ''inserterHover'')))"
      "maxInserterHover c = Math_max (map Fin (the (results ''inserterHover'')))"
      "listViewOpen c = average (map Fin (the (results ''listViewOpen'')))"
      "minListViewOpen c = Math_min (map Fin (the (results ''listViewOpen'')))"
      "maxListViewOpen c = Math_max (map Fin (the (results ''listViewOpen'')))"
    by blast
  show ?thesis
    by (intro exI [of _ c] conjI c view) (simp_all add: f average_Nil Math_min_Nil Math_max_Nil)
qed

theorem curateResults_empty_samples_witness:
  "list_all (\<lambda>k. example_raw_empty k \<noteq> None) metricKeys \<and>
   (\<exists>c. curateResults example_raw_empty = Inr c \<and>
        type c = NaN \<and> minType c = PosInf \<and> maxType c = NegInf \<and>
        (\<forall>row. invertedResult (\<lambda>v. []) [''trunk'' \<mapsto> c] [''trunk''] ''minType'' = Some row \<longrightarrow>
               row ''trunk'' = None))"
proof -
  have h: "\<forall>k\<in>set metricKeys. example_raw_empty k \<noteq> None"
    by (simp add: example_raw_empty_def)
  have e: "example_raw_empty k = Some []" if "k \<in> set metricKeys" for k
    using that by (simp add: example_raw_empty_def)
  note es = in_metricKeys [THEN e]
  from curateResults_empty_samples [OF h, unfolded es]
  obtain c where c: "curateResults example_raw_empty = Inr c"
      "type c = NaN" "minType c = PosInf" "maxType c = NegInf"
    and view: "\<And>toString table keys ref val entry v row.
          table ref = Some val \<Longrightarrow> (entry, v) \<in> set (entries val) \<Longrightarrow> \<not> isFinite v \<Longrightarrow>
          invertedResult toString table keys entry = Some row \<Longrightarrow> row ref = None"
    by auto
  have "(''minType'', PosInf) \<in> set (entries c)"
    using c(3) by (simp add: entries_def)
  then have "\<forall>row. invertedResult (\<lambda>v. []) [''trunk'' \<mapsto> c] [''trunk''] ''minType'' = Some row \<longrightarrow>
               row ''trunk'' = None"
    using view [of "[''trunk'' \<mapsto> c]" "''trunk''" c "''minType''" PosInf] by simp
  moreover have "list_all (\<lambda>k. example_raw_empty k \<noteq> None) metricKeys"
    using h by (simp add: list_all_iff)
  ultimately show ?thesis using c by blast
qed

subsection \<open>\<open>formatTime\<close>\<close>

lemma neg_floor_half:
  fixes y :: real
  assumes "frac y \<noteq> 1 / 2"
  shows "- \<lfloor>- y + 1 / 2\<rfloor> = \<lfloor>y + 1 / 2\<rfloor>"
proof -
  define n where "n = \<lfloor>y + 1 / 2\<rfloor>"
  have lo: "of_int n \<le> y + 1 / 2" and hi: "y + 1 / 2 < of_int n + 1"
    unfolding n_def by linarith+
  have ne: "y + 1 / 2 \<noteq> of_int n"
  proof
    assume "y + 1 / 2 = of_int n"
    then have "y - 1 / 2 = of_int (n - 1)" by simp
    then have "y - 1 / 2 \<in> \<int>" by (metis Ints_of_int)
    then have "frac y = 1 / 2" using frac_unique_iff [of y "1 / 2"] by simp
    with assms show False by simp
  qed
  have "\<lfloor>- y + 1 / 2\<rfloor> = - n"
    by (rule floor_unique) (use lo hi ne in auto)
  then show ?thesis by (simp add: n_def)
qed

lemma formatTime_product:
  assumes "round64 (x * 100) = Fin p"
  shows "formatTime (Fin x) = round64 (of_int \<lfloor>p + 1 / 2\<rfloor> / 100)"
  using assms by (simp add: formatTime_def)

lemma formatTime_half_away:
  assumes "round64 (x * 100) = Fin p" and "0 \<le> p \<or> frac p \<noteq> 1 / 2"
  shows "formatTime (Fin x) = round64 (of_int (round_half_away_from_zero p) / 100)"
proof (cases "0 \<le> p")
  case True
  then show ?thesis
    by (simp add: formatTime_product [OF assms(1)] round_half_away_from_zero_def)
next
  case False
  with assms(2) have "frac p \<noteq> 1 / 2" by simp
  from neg_floor_half [OF this] False show ?thesis
    by (simp add: formatTime_product [OF assms(1)] round_half_away_from_zero_def)
qed

lemma formatTime_values:
  "formatTime (Fin 10) = Fin 10" "formatTime (Fin 20) = Fin 20" "formatTime (Fin 30) = Fin 30"
  by (simp_all add: formatTime_def round64_values)


subsection \<open>\<open>median\<close>\<close>

lemma inj_js_key: "inj js_key"
  by (auto simp: inj_def js_key_def split: jsnum.splits)

text \<open>
  On binary64 values the comparator \<open>a - b\<close> is positive exactly when \<open>a\<close> is the
  larger one: the difference of two distinct binary64 values does not round to zero.
\<close>

lemma pos_cmp_key:
  assumes "x \<noteq> NaN" "y \<noteq> NaN" "binary64 x" "binary64 y"
  shows "js_pos (comparefn x y) \<longleftrightarrow> \<not> js_key x \<le> js_key y"
proof (cases x)
  case x: (Fin a)
  show ?thesis
  proof (cases y)
    case y: (Fin b)
    from assms(3,4) have "js_pos (comparefn (Fin a) (Fin b)) = (b < a)"
      unfolding x y by (intro comparefn_Fin) simp_all
    then show ?thesis by (auto simp: x y js_key_def)
  qed (use assms in \<open>auto simp: x comparefn_def js_sub_def js_key_def\<close>)
qed (use assms in \<open>cases y; auto simp: comparefn_def js_sub_def js_key_def\<close>)+

lemma js_le_key: "x \<noteq> NaN \<Longrightarrow> y \<noteq> NaN \<Longrightarrow> js_le x y \<longleftrightarrow> js_key x \<le> js_key y"
  by (cases x; cases y) (auto simp: js_key_def)

lemma sort_insert_key:
  "x \<noteq> NaN \<Longrightarrow> binary64 x \<Longrightarrow> NaN \<notin> set ys \<Longrightarrow> list_all binary64 ys
    \<Longrightarrow> sort_insert x ys = insort_key js_key x ys"
  by (induction ys) (auto simp: pos_cmp_key)

lemma mset_sort_insert: "mset (sort_insert x ys) = add_mset x (mset ys)"
  by (induction ys) auto

lemma mset_js_sort: "mset (js_sort xs) = mset xs"
  unfolding js_sort_def by (induction xs) (auto simp: mset_sort_insert)

lemma set_js_sort: "set (js_sort xs) = set xs"
  by (metis mset_js_sort set_mset_mset)

lemma length_js_sort: "length (js_sort xs) = length xs"
  by (metis mset_js_sort size_mset)

lemma js_sort_Cons: "js_sort (x # xs) = sort_insert x (js_sort xs)"
  by (simp add: js_sort_def)

lemma js_sort_key:
  "NaN \<notin> set xs \<Longrightarrow> list_all binary64 xs \<Longrightarrow> js_sort xs = sort_key js_key xs"
proof (induction xs)
  case Nil
  then show ?case by (simp add: js_sort_def)
next
  case (Cons x xs)
  then have "js_sort (x # xs) = sort_insert x (sort_key js_key xs)"
    by (simp add: js_sort_Cons)
  also have "\<dots> = insort_key js_key x (sort_key js_key xs)"
    using Cons.prems by (intro sort_insert_key) (auto simp: list_all_iff)
  finally show ?case by simp
qed

lemma sorted_js_sort:
  assumes "NaN \<notin> set xs" "list_all binary64 xs"
  shows "sorted_wrt js_le (js_sort xs)"
proof -
  have "sorted (map js_key (js_sort xs))"
    using assms by (simp add: js_sort_key)
  then have "sorted_wrt (\<lambda>a b. js_key a \<le> js_key b) (js_sort xs)"
    by (simp add: sorted_wrt_map)
  moreover have "\<And>a b. a \<in> set (js_sort xs) \<Longrightarrow> b \<in> set (js_sort xs) \<Longrightarrow> js_key a \<le> js_key b \<Longrightarrow> js_le a b"
    using assms(1) by (metis js_le_key set_js_sort)
  ultimately show ?thesis
    by (rule sorted_wrt_mono_rel [rotated]) auto
qed

lemma js_sort_perm:
  assumes "NaN \<notin> set xs" "list_all binary64 xs" "mset ys = mset xs"
  shows "js_sort ys = js_sort xs"
proof -
  have sys: "set ys = set xs" using assms(3) by (metis set_mset_mset)
  have nys: "NaN \<notin> set ys" using assms(1) by (simp add: sys)
  have bys: "list_all binary64 ys" using assms(2) by (simp add: list_all_iff sys)
  have "map js_key (sort_key js_key ys) = map js_key (sort_key js_key xs)"
  proof -
    have "map js_key (sort_key js_key ys) = sort (map js_key ys)"
      by (rule properties_for_sort [symmetric]) simp_all
    also have "\<dots> = sort (map js_key xs)"
      using assms(3) by (metis mset_map properties_for_sort sorted_sort mset_sort)
    also have "\<dots> = map js_key (sort_key js_key xs)"
      by (rule properties_for_sort) simp_all
    finally show ?thesis .
  qed
  then have "sort_key js_key ys = sort_key js_key xs"
    using inj_js_key by (simp add: inj_map_eq_map)
  then show ?thesis using assms(1,2) nys bys by (simp add: js_sort_key)
qed

lemma median_perm:
  assumes "NaN \<notin> set xs" "list_all binary64 xs" "mset ys = mset xs"
  shows "median ys = median xs"
proof -
  have "length ys = length xs" using assms(3) by (metis size_mset)
  then show ?thesis
    using js_sort_perm [OF assms] by (simp add: median_def)
qed

lemma median_odd: "odd (length xs) \<Longrightarrow> median xs = js_sort xs ! (length xs div 2)"
  by (auto simp: median_def js_index_def Let_def length_js_sort odd_iff_mod_2_eq_one)

lemma median_even: 
  assumes "even (length xs)" "xs \<noteq> []" 
  shows "median xs = js_div (js_add (js_sort xs ! (length xs div 2 - 1)) (js_sort xs ! (length xs div 2))) (Fin 2)"
proof -
  have pos: "0 < length xs" using assms by simp
  then have "2 \<le> length xs" using assms(1) by presburger
  then have a: "1 \<le> length xs div 2" and b: "length xs div 2 < length xs" by auto
  have c: "nat (int (length xs div 2) - 1) = length xs div 2 - 1" using a by auto
  show ?thesis using assms(1) a b c
    by (auto simp: median_def js_index_def Let_def length_js_sort)
qed


lemma median_store_correct:
  assumes "cells s a = Some xs" "a < next_addr s"
  shows "\<exists>s'. median_store s a = Some (median xs, s') \<and> (\<forall>b<next_addr s. cells s' b = cells s b)"
  using assms
  by (auto simp: median_store_def spread_copy_def sort_in_place_def median_def Let_def)

lemma median_123: "median [Fin 1, Fin 2, Fin 3] = Fin 2"
  by (simp add: median_def js_sort_def comparefn_Fin round64_values js_index_def)

lemma median_1234: "median [Fin 1, Fin 2, Fin 3, Fin 4] = Fin 2.5"
  by (simp add: median_def js_sort_def comparefn_Fin round64_values js_index_def)

text \<open>
  C7, as amended. For every non-empty sequence of numbers with no \<open>NaN\<close> among them
  (binary64 values, as all numbers of the program are: finite ones and the
  infinities), the copy that \<open>median\<close> sorts is the ascending arrangement of the
  sequence; \<open>median\<close> returns its middle element when the length is odd and, when the
  length is even, the sum of its two middle elements divided by two, as computed in
  binary64. The result is the same for every permutation of the sequence. On the store,
  \<open>median\<close> returns the same value and leaves every array that existed before the
  call, the argument included, as it was. In particular \<open>median([1, 2, 3]) = 2\<close> and
  \<open>median([1, 2, 3, 4]) = 2.5\<close>.
\<close>

theorem median_sorted_middle:
  assumes "array \<noteq> []" and "NaN \<notin> set array" and "list_all binary64 array"
  shows "sorted_wrt js_le (js_sort array) \<and> mset (js_sort array) = mset array
    \<and> (odd (length array) \<longrightarrow> median array = js_sort array ! (length array div 2))
    \<and> (even (length array) \<longrightarrow>
         median array = js_div (js_add (js_sort array ! (length array div 2 - 1))
                                      (js_sort array ! (length array div 2))) (Fin 2))
    \<and> (\<forall>ys. mset ys = mset array \<longrightarrow> median ys = median array)
    \<and> (\<forall>s a. cells s a = Some array \<longrightarrow> a < next_addr s \<longrightarrow>
          (\<exists>s'. median_store s a = Some (median array, s') \<and>
                (\<forall>b<next_addr s. cells s' b = cells s b)))
    \<and> median [Fin 1, Fin 2, Fin 3] = Fin 2
    \<and> median [Fin 1, Fin 2, Fin 3, Fin 4] = Fin 2.5"
proof (intro conjI allI impI)
  show "sorted_wrt js_le (js_sort array)" by (rule sorted_js_sort [OF assms(2,3)])
  show "mset (js_sort array) = mset array" by (rule mset_js_sort)
  show "median array = js_sort array ! (length array div 2)" if "odd (length array)"
    using that by (rule median_odd)
  show "median array = js_div (js_add (js_sort array ! (length array div 2 - 1))
                                      (js_sort array ! (length array div 2))) (Fin 2)"
    if "even (length array)"
    using that assms(1) by (rule median_even)
  show "median ys = median array" if "mset ys = mset array" for ys
    using assms(2,3) that by (rule median_perm)
  show "\<exists>s'. median_store s a = Some (median array, s') \<and>
                (\<forall>b<next_addr s. cells s' b = cells s b)"
    if "cells s a = Some array" "a < next_addr s" for s a
    using that by (rule median_store_correct)
  show "median [Fin 1, Fin 2, Fin 3] = Fin 2" by (rule median_123)
  show "median [Fin 1, Fin 2, Fin 3, Fin 4] = Fin 2.5" by (rule median_1234)
qed

theorem median_sorted_middle_witness:
  "[Fin 3, Fin 1, Fin 2] \<noteq> [] \<and> NaN \<notin> set [Fin 3, Fin 1, Fin 2]
   \<and> list_all binary64 [Fin 3, Fin 1, Fin 2]
   \<and> odd (length [Fin 3, Fin 1, Fin 2])
   \<and> median [Fin 3, Fin 1, Fin 2] = Fin 2
   \<and> mset [Fin 2, Fin 3, Fin 1] = mset [Fin 3, Fin 1, Fin 2]
   \<and> median [Fin 2, Fin 3, Fin 1] = median [Fin 3, Fin 1, Fin 2]
   \<and> cells example_store 0 = Some [Fin 3, Fin 1, Fin 2] \<and> 0 < next_addr example_store
   \<and> (\<exists>s'. median_store example_store 0 = Some (Fin 2, s') \<and>
            cells s' 0 = Some [Fin 3, Fin 1, Fin 2])"
proof -
  have h1: "[Fin 3, Fin 1, Fin 2] \<noteq> []" and h2: "NaN \<notin> set [Fin 3, Fin 1, Fin 2]"
    and h3: "list_all binary64 [Fin 3, Fin 1, Fin 2]"
    by (simp_all add: round64_values)
  note t = median_sorted_middle [OF h1 h2 h3]
  have srt: "js_sort [Fin 3, Fin 1, Fin 2] = [Fin 1, Fin 2, Fin 3]"
    by (simp add: js_sort_def comparefn_Fin round64_values)
  have od: "odd (length [Fin 3, Fin 1, Fin 2])" by simp
  have "median [Fin 3, Fin 1, Fin 2] = js_sort [Fin 3, Fin 1, Fin 2] ! (length [Fin 3, Fin 1, Fin 2] div 2)"
    by (rule t [THEN conjunct2, THEN conjunct2, THEN conjunct1, rule_format, OF od])
  then have m: "median [Fin 3, Fin 1, Fin 2] = Fin 2"
    by (simp add: srt)
  have p: "mset [Fin 2, Fin 3, Fin 1] = mset [Fin 3, Fin 1, Fin 2]" by simp
  have mp: "median [Fin 2, Fin 3, Fin 1] = median [Fin 3, Fin 1, Fin 2]"
    by (rule t [THEN conjunct2, THEN conjunct2, THEN conjunct2, THEN conjunct2, THEN conjunct1,
          rule_format, OF p])
  have c: "cells example_store 0 = Some [Fin 3, Fin 1, Fin 2]" and n: "0 < next_addr example_store"
    by (simp_all add: example_store_def)
  have "\<exists>s'. median_store example_store 0 = Some (median [Fin 3, Fin 1, Fin 2], s') \<and>
                (\<forall>b<next_addr example_store. cells s' b = cells example_store b)"
    by (rule t [THEN conjunct2, THEN conjunct2, THEN conjunct2, THEN conjunct2, THEN conjunct2,
          THEN conjunct1, rule_format, OF c n])
  then have st: "\<exists>s'. median_store example_store 0 = Some (Fin 2, s') \<and>
            cells s' 0 = Some [Fin 3, Fin 1, Fin 2]"
    using c n by (auto simp: m)
  from h1 h2 h3 od m p mp c n st show ?thesis by (intro conjI)
qed

text \<open>
  C7 as stated, for every sequence of numbers, fails when \<open>NaN\<close> is among them. Every
  comparison of the comparator with \<open>NaN\<close> counts as a tie, so the sort leaves
  \<open>[NaN, 1, 2]\<close> and \<open>[1, NaN, 2]\<close> as they are: the copy is not in ascending
  order, and the two sequences, permutations of each other, have the medians \<open>1\<close>
  and \<open>NaN\<close>.
\<close>

theorem median_NaN_counterexample:
  "mset [Fin 1, NaN, Fin 2] = mset [NaN, Fin 1, Fin 2]
   \<and> js_sort [NaN, Fin 1, Fin 2] = [NaN, Fin 1, Fin 2]
   \<and> js_sort [Fin 1, NaN, Fin 2] = [Fin 1, NaN, Fin 2]
   \<and> median [NaN, Fin 1, Fin 2] = Fin 1
   \<and> median [Fin 1, NaN, Fin 2] = NaN"
proof -
  have c: "js_pos (comparefn (Fin 1) (Fin 2)) = False"
    using comparefn_Fin [of 1 2] by (simp add: round64_values)
  have n: "comparefn NaN y = NaN" "comparefn (Fin a) NaN = NaN" for y a
    by (simp_all add: comparefn_def js_sub_def)
  have s1: "js_sort [NaN, Fin 1, Fin 2] = [NaN, Fin 1, Fin 2]"
    and s2: "js_sort [Fin 1, NaN, Fin 2] = [Fin 1, NaN, Fin 2]"
    by (simp_all add: js_sort_def c n)
  have m1: "median [NaN, Fin 1, Fin 2] = Fin 1" and m2: "median [Fin 1, NaN, Fin 2] = NaN"
    by (simp_all add: median_def s1 s2 js_index_def)
  have p: "mset [Fin 1, NaN, Fin 2] = mset [NaN, Fin 1, Fin 2]" by simp
  from p s1 s2 m1 m2 show ?thesis by (intro conjI)
qed

text \<open>
  The mean of the two middle elements is the binary64 one: the sum is rounded before
  the division, and the median of two elements \<open>2 ^ 1023\<close> is \<open>Infinity\<close>.
\<close>

lemma median_overflow: "median [Fin (2 ^ 1023), Fin (2 ^ 1023)] = PosInf"
  using round64_eval [of 1024 "2 ^ 1023 + 2 ^ 1023"]
  by (simp add: median_def js_sort_def comparefn_def js_sub_def js_index_def pow2_def
      round_half_even_def Let_def)

subsection \<open>Rounding in \<open>formatTime\<close>\<close>

text \<open>
  C8, as amended. For every finite number, \<open>formatTime\<close> multiplies it by 100 in
  binary64 (the product is rounded to the nearest binary64 value, and is an infinity
  when it overflows), rounds the product to the nearest integer with a tie going to the
  larger integer, and divides by 100 in binary64; an infinity and \<open>NaN\<close> are returned
  as they are. This is rounding the binary64 product half away from zero whenever the
  product is not negative or is not halfway between two integers. In particular
  \<open>formatTime(12.345) = 12.35\<close> and \<open>formatTime(12.344) = 12.34\<close>, the decimal
  numerals denoting the nearest binary64 values.
\<close>

theorem formatTime_rounds_half_up:
  "(\<forall>p. round64 (x * 100) = Fin p \<longrightarrow>
        formatTime (Fin x) = round64 (of_int \<lfloor>p + 1 / 2\<rfloor> / 100))
   \<and> (\<forall>p. round64 (x * 100) = Fin p \<longrightarrow> 0 \<le> p \<or> frac p \<noteq> 1 / 2 \<longrightarrow>
        formatTime (Fin x) = round64 (of_int (round_half_away_from_zero p) / 100))
   \<and> (round64 (x * 100) = PosInf \<longrightarrow> formatTime (Fin x) = PosInf)
   \<and> (round64 (x * 100) = NegInf \<longrightarrow> formatTime (Fin x) = NegInf)
   \<and> formatTime PosInf = PosInf \<and> formatTime NegInf = NegInf \<and> formatTime NaN = NaN
   \<and> formatTime (round64 12.345) = round64 12.35
   \<and> formatTime (round64 12.344) = round64 12.34"
proof (intro conjI impI allI)
  show "formatTime (Fin x) = round64 (of_int \<lfloor>p + 1 / 2\<rfloor> / 100)"
    if "round64 (x * 100) = Fin p" for p
    using that by (rule formatTime_product)
  show "formatTime (Fin x) = round64 (of_int (round_half_away_from_zero p) / 100)"
    if "round64 (x * 100) = Fin p" "0 \<le> p \<or> frac p \<noteq> 1 / 2" for p
    using that by (rule formatTime_half_away)
  show "formatTime (Fin x) = PosInf" if "round64 (x * 100) = PosInf"
    using that by (simp add: formatTime_def)
  show "formatTime (Fin x) = NegInf" if "round64 (x * 100) = NegInf"
    using that by (simp add: formatTime_def)
  show "formatTime PosInf = PosInf" "formatTime NegInf = NegInf" "formatTime NaN = NaN"
    by (simp_all add: formatTime_def)
  have a: "round64 12.345 = Fin (6949617174986097 / 2 ^ 49)"
    using round64_eval [of 3 "12.345"]
    by (simp add: pow2_def round_half_even_def Let_def)
  have a': "round64 (6949617174986097 / 2 ^ 49 * 100) = Fin (2469 / 2)"
    using round64_eval [of 10 "6949617174986097 / 2 ^ 49 * 100"]
    by (simp add: pow2_def round_half_even_def Let_def)
  show "formatTime (round64 12.345) = round64 12.35"
    unfolding a formatTime_product [OF a'] by simp
  have b: "round64 12.344 = Fin (6949054225032675 / 2 ^ 49)"
    using round64_eval [of 3 "12.344"]
    by (simp add: pow2_def round_half_even_def Let_def)
  have b': "round64 (6949054225032675 / 2 ^ 49 * 100) = Fin (5428948613306777 / 2 ^ 42)"
    using round64_eval [of 10 "6949054225032675 / 2 ^ 49 * 100"]
    by (simp add: pow2_def round_half_even_def Let_def)
  show "formatTime (round64 12.344) = round64 12.34"
    unfolding b formatTime_product [OF b'] by simp
qed

theorem formatTime_rounds_half_up_witness:
  "round64 12.345 = Fin (6949617174986097 / 2 ^ 49)
   \<and> round64 (6949617174986097 / 2 ^ 49 * 100) = Fin (2469 / 2)
   \<and> 0 \<le> (2469 / 2 :: real)
   \<and> round_half_away_from_zero (2469 / 2) = 1235
   \<and> formatTime (Fin (6949617174986097 / 2 ^ 49)) = round64 (1235 / 100)"
proof -
  have a: "round64 12.345 = Fin (6949617174986097 / 2 ^ 49)"
    using round64_eval [of 3 "12.345"]
    by (simp add: pow2_def round_half_even_def Let_def)
  have a': "round64 (6949617174986097 / 2 ^ 49 * 100) = Fin (2469 / 2)"
    using round64_eval [of 10 "6949617174986097 / 2 ^ 49 * 100"]
    by (simp add: pow2_def round_half_even_def Let_def)
  have h: "0 \<le> (2469 / 2 :: real) \<or> frac (2469 / 2 :: real) \<noteq> 1 / 2" by simp
  have r: "round_half_away_from_zero (2469 / 2) = 1235"
    by (simp add: round_half_away_from_zero_def)
  have "formatTime (Fin (6949617174986097 / 2 ^ 49))
      = round64 (of_int (round_half_away_from_zero (2469 / 2)) / 100)"
    by (rule formatTime_rounds_half_up [of "6949617174986097 / 2 ^ 49", THEN conjunct2,
          THEN conjunct1, rule_format, OF a' h])
  then have f: "formatTime (Fin (6949617174986097 / 2 ^ 49)) = round64 (1235 / 100)"
    unfolding r by simp
  have z: "0 \<le> (2469 / 2 :: real)" by simp
  from a a' z r f show ?thesis by (intro conjI)
qed

text \<open>
  C8 as stated fails at \<open>-0.125\<close>, a binary64 value whose product with 100 is
  \<open>-12.5\<close>, without rounding: \<open>Math.round\<close> gives \<open>-12\<close> and the result is
  \<open>-0.12\<close>, where rounding half away from zero gives \<open>-13\<close> and \<open>-0.13\<close>.
\<close>

theorem formatTime_half_away_counterexample:
  "round64 (- 0.125) = Fin (- 0.125)
   \<and> round64 (- 0.125 * 100) = Fin (- 12.5)
   \<and> formatTime (Fin (- 0.125)) = Fin (- 1080863910568919 / 2 ^ 53)
   \<and> round64 (- 0.12) = Fin (- 1080863910568919 / 2 ^ 53)
   \<and> round_half_away_from_zero (- 12.5) = - 13
   \<and> round64 (- 13 / 100) = Fin (- 1170935903116329 / 2 ^ 53)"
proof -
  have a: "round64 (- 0.125) = Fin (- 0.125)"
    using round64_eval [of "- 3" "- 0.125"]
    by (simp add: pow2_def round_half_even_def Let_def)
  have b: "round64 (- 0.125 * 100) = Fin (- 12.5)"
    using round64_eval [of 3 "- 0.125 * 100"]
    by (simp add: pow2_def round_half_even_def Let_def)
  have c: "round64 (- 0.12) = Fin (- 1080863910568919 / 2 ^ 53)"
    using round64_eval [of "- 4" "- 0.12"]
    by (simp add: pow2_def round_half_even_def Let_def)
  have d: "round64 (- 13 / 100) = Fin (- 1170935903116329 / 2 ^ 53)"
    using round64_eval [of "- 3" "- 13 / 100"]
    by (simp add: pow2_def round_half_even_def Let_def)
  have f: "formatTime (Fin (- 0.125)) = Fin (- 1080863910568919 / 2 ^ 53)"
    using c unfolding formatTime_product [OF b] by simp
  have r: "round_half_away_from_zero (- 12.5) = - 13"
    by (simp add: round_half_away_from_zero_def)
  from a b f c r d show ?thesis by (intro conjI)
qed

text \<open>
  The rounding of the product is visible in the result. The binary64 value
  \<open>0.11499999999999999\<close> lies below \<open>0.115\<close>, and its exact product with 100
  below \<open>11.5\<close>, which would round to \<open>11\<close>; the binary64 product is \<open>11.5\<close>,
  and \<open>formatTime\<close> returns \<open>0.12\<close>.
\<close>

lemma formatTime_product_rounded:
  "round64 (517913957147607 / 2 ^ 52) = Fin (517913957147607 / 2 ^ 52)
   \<and> \<lfloor>517913957147607 / 2 ^ 52 * 100 + 1 / 2 :: real\<rfloor> = 11
   \<and> round64 (517913957147607 / 2 ^ 52 * 100) = Fin (23 / 2)
   \<and> formatTime (Fin (517913957147607 / 2 ^ 52)) = round64 0.12"
proof -
  have a: "round64 (517913957147607 / 2 ^ 52) = Fin (517913957147607 / 2 ^ 52)"
    using round64_eval [of "- 4" "517913957147607 / 2 ^ 52"]
    by (simp add: pow2_def round_half_even_def Let_def)
  have b: "round64 (517913957147607 / 2 ^ 52 * 100) = Fin (23 / 2)"
    using round64_eval [of 3 "517913957147607 / 2 ^ 52 * 100"]
    by (simp add: pow2_def round_half_even_def Let_def)
  have c: "\<lfloor>517913957147607 / 2 ^ 52 * 100 + 1 / 2 :: real\<rfloor> = 11"
    by simp
  have d: "formatTime (Fin (517913957147607 / 2 ^ 52)) = round64 0.12"
    unfolding formatTime_product [OF b] by simp
  from a c b d show ?thesis by (intro conjI)
qed

subsection \<open>The trace of the loops\<close>

lemma runTestSuite_trace:
  "runTestSuite w s ptd tr = (Inr c, tr') \<Longrightarrow>
   tr' = tr @ [Shell (test_command s) (Some ptd), ReadJSON (results_file ptd s)]"
  by (auto simp: runTestSuite_def runShellScript_def readJSONFile_def
      split: if_splits option.splits sum.splits)

lemma testRef_Inr:
  assumes "testRef w bd ptd s acc ref tr = (Inr acc', tr')"
  shows "\<exists>c. acc' = acc(ref \<mapsto> c) \<and> tr' = tr @ execution bd ptd s ref \<and>
    runTestSuite w s ptd (tr @ [Shell wp_env_start (bd ref)])
      = (Inr c, tr @ [Shell wp_env_start (bd ref), Shell (test_command s) (Some ptd),
                      ReadJSON (results_file ptd s)])"
proof -
  from assms obtain c tr2 where
    rt: "runTestSuite w s ptd (tr @ [Shell wp_env_start (bd ref)]) = (Inr c, tr2)"
    and acc': "acc' = acc(ref \<mapsto> c)" and tr': "tr' = tr2 @ [Shell wp_env_stop (bd ref)]"
    by (auto simp: testRef_def runShellScript_def Let_def split: if_splits prod.splits sum.splits)
  from runTestSuite_trace [OF rt] have tr2: "tr2 = tr @ [Shell wp_env_start (bd ref),
      Shell (test_command s) (Some ptd), ReadJSON (results_file ptd s)]" by simp
  show ?thesis using rt acc' tr' tr2 by (simp add: execution_def)
qed

lemma testRefs_Inr:
  "testRefs w bd ptd s acc refs tr = (Inr acc', tr') \<Longrightarrow>
   tr' = tr @ round_events bd ptd s refs \<and> dom acc' = dom acc \<union> set refs"
proof (induction refs arbitrary: acc tr)
  case Nil
  then show ?case by (simp add: round_events_def)
next
  case (Cons ref refs)
  from Cons.prems obtain acc1 tr1 where
    one: "testRef w bd ptd s acc ref tr = (Inr acc1, tr1)"
    and rest: "testRefs w bd ptd s acc1 refs tr1 = (Inr acc', tr')"
    by (auto split: prod.splits sum.splits)
  from testRef_Inr [OF one] obtain c where
    "acc1 = acc(ref \<mapsto> c)" "tr1 = tr @ execution bd ptd s ref" by blast
  with Cons.IH [OF rest] show ?case by (auto simp: round_events_def)
qed

lemma testRounds_Inr:
  "testRounds w bd ptd s refs i raw tr = (Inr raw', tr') \<Longrightarrow> i \<le> 3 \<Longrightarrow>
   (\<exists>rounds. raw' = raw @ rounds \<and> length rounds = 3 - i \<and> (\<forall>r\<in>set rounds. dom r = set refs)) \<and>
   tr' = tr @ concat (replicate (3 - i) (round_events bd ptd s refs))"
proof (induction w bd ptd s refs i raw tr rule: testRounds.induct)
  case (1 w bd ptd s refs i raw tr)
  show ?case
  proof (cases "i < 3")
    case False
    with "1.prems" show ?thesis by (simp add: testRounds.simps [of _ _ _ _ _ i])
  next
    case True
    with "1.prems"(1) obtain r tr1 where
      one: "testRefs w bd ptd s Map.empty refs tr = (Inr r, tr1)"
      and rest: "testRounds w bd ptd s refs (i + 1) (raw @ [r]) tr1 = (Inr raw', tr')"
      by (subst (asm) testRounds.simps) (auto split: prod.splits sum.splits)
    from testRefs_Inr [OF one] have r: "tr1 = tr @ round_events bd ptd s refs" "dom r = set refs"
      by simp_all
    from True have le: "i + 1 \<le> 3" by simp
    from "1.IH" [OF True one [symmetric] refl rest le] obtain rounds where
      rs: "raw' = (raw @ [r]) @ rounds" "length rounds = 3 - (i + 1)" "\<forall>r\<in>set rounds. dom r = set refs"
      and tr': "tr' = tr1 @ concat (replicate (3 - (i + 1)) (round_events bd ptd s refs))"
      by blast
    have n: "3 - i = Suc (3 - (i + 1))" using True by simp
    have "raw' = raw @ (r # rounds) \<and> length (r # rounds) = 3 - i \<and> (\<forall>r\<in>set (r # rounds). dom r = set refs)"
      using rs r(2) n by simp
    moreover have "tr' = tr @ concat (replicate (3 - i) (round_events bd ptd s refs))"
      unfolding n tr' r(1) by simp
    ultimately show ?thesis by blast
  qed
qed

lemma testRefs_values:
  "testRefs w bd ptd s acc refs tr = (Inr acc', tr') \<Longrightarrow> acc' k = Some c \<Longrightarrow>
   acc k = Some c \<or> (\<exists>tr0 tr1. runTestSuite w s ptd tr0 = (Inr c, tr1))"
proof (induction refs arbitrary: acc tr)
  case Nil
  then show ?case by simp
next
  case (Cons ref refs)
  from Cons.prems(1) obtain acc1 tr1 where
    one: "testRef w bd ptd s acc ref tr = (Inr acc1, tr1)"
    and rest: "testRefs w bd ptd s acc1 refs tr1 = (Inr acc', tr')"
    by (auto split: prod.splits sum.splits)
  from testRef_Inr [OF one] obtain c1 tr2 where
    acc1: "acc1 = acc(ref \<mapsto> c1)"
    and rt: "runTestSuite w s ptd (tr @ [Shell wp_env_start (bd ref)]) = (Inr c1, tr2)"
    by blast
  from Cons.IH [OF rest Cons.prems(2)] show ?case
  proof
    assume "acc1 k = Some c"
    with acc1 rt show ?thesis by (cases "k = ref") auto
  qed simp
qed

lemma testRounds_values:
  "testRounds w bd ptd s refs i raw tr = (Inr raw', tr') \<Longrightarrow>
   r \<in> set (drop (length raw) raw') \<Longrightarrow> r k = Some c \<Longrightarrow>
   \<exists>tr0 tr1. runTestSuite w s ptd tr0 = (Inr c, tr1)"
proof (induction w bd ptd s refs i raw tr rule: testRounds.induct)
  case (1 w bd ptd s refs i raw tr)
  show ?case
  proof (cases "i < 3")
    case False
    with "1.prems" show ?thesis by (simp add: testRounds.simps [of _ _ _ _ _ i])
  next
    case True
    with "1.prems"(1) obtain r1 tr1 where
      one: "testRefs w bd ptd s Map.empty refs tr = (Inr r1, tr1)"
      and rest: "testRounds w bd ptd s refs (i + 1) (raw @ [r1]) tr1 = (Inr raw', tr')"
      by (subst (asm) testRounds.simps) (auto split: prod.splits sum.splits)
    from testRounds_Inr [OF rest] True obtain rounds where raw': "raw' = (raw @ [r1]) @ rounds"
      by auto
    with "1.prems"(2) have "r = r1 \<or> r \<in> set (drop (length (raw @ [r1])) raw')" by auto
    then show ?thesis
    proof
      assume "r = r1"
      with testRefs_values [OF one, of k c] "1.prems"(3) show ?thesis by simp
    next
      assume "r \<in> set (drop (length (raw @ [r1])) raw')"
      from "1.IH" [OF True one [symmetric] refl rest this "1.prems"(3)] show ?thesis .
    qed
  qed
qed

subsection \<open>The medians of a suite\<close>

lemma pluck_Inr:
  "list_all (\<lambda>r. r ref \<noteq> None) raw \<Longrightarrow>
   pluck raw ref key sel = Inr (map sel (map (\<lambda>r. the (r ref)) raw))"
  by (simp add: pluck_def)

lemma medians_of_Inr:
  assumes "list_all (\<lambda>r. r ref \<noteq> None) raw"
  shows "medians_of raw ref = Inr (mapValues median (per_metric (map (\<lambda>r. the (r ref)) raw)))"
proof -
  have "medians_of raw ref =
      (case object_literal (mapValues Inr (per_metric (map (\<lambda>r. the (r ref)) raw))) of
         Inl e \<Rightarrow> Inl e | Inr arrays \<Rightarrow> Inr (mapValues median arrays))"
    unfolding medians_of_def pluck_Inr [OF assms] by (simp add: mapValues_def per_metric_def)
  then show ?thesis by (simp only: object_literal_Inr sum.case)
qed

lemma computeMedians_Inr:
  assumes "\<forall>ref\<in>set refs. list_all (\<lambda>r. r ref \<noteq> None) raw"
  shows "computeMedians raw table refs =
    Inr (\<lambda>k. if k \<in> set refs then table_of raw refs k else table k)"
  using assms
proof (induction refs arbitrary: table)
  case Nil
  then show ?case by simp
next
  case (Cons ref refs)
  then have m: "medians_of raw ref = Inr (mapValues median (per_metric (map (\<lambda>r. the (r ref)) raw)))"
    by (intro medians_of_Inr) simp
  from Cons have ih: "computeMedians raw table' refs =
    Inr (\<lambda>k. if k \<in> set refs then table_of raw refs k else table' k)" for table'
    by simp
  show ?case
    unfolding computeMedians.simps m sum.case ih
    by (auto simp: table_of_def mapValues_mapValues fun_eq_iff)
qed

lemma rounds_all_refs:
  assumes "\<forall>r\<in>set raw. dom r = set refs"
  shows "\<forall>ref\<in>set refs. list_all (\<lambda>r. r ref \<noteq> None) raw"
proof (intro ballI)
  fix ref assume ref: "ref \<in> set refs"
  have "r ref \<noteq> None" if "r \<in> set raw" for r
  proof -
    from assms that have "ref \<in> dom r" using ref by simp
    then show ?thesis by auto
  qed
  then show "list_all (\<lambda>r. r ref \<noteq> None) raw" by (simp add: list_all_iff)
qed

lemma testSuitesLoop_Inr:
  "testSuitesLoop w bd ptd refs results suites tr = (Inr results', tr') \<Longrightarrow>
   tr' = tr @ concat (map (\<lambda>s. concat (replicate 3 (round_events bd ptd s refs))) suites) \<and>
   (\<forall>s. s \<notin> set suites \<longrightarrow> results' s = results s) \<and>
   (\<forall>s\<in>set suites. \<exists>raw tr1 tr2.
       testRounds w bd ptd s refs 0 [] tr1 = (Inr raw, tr2) \<and> length raw = 3 \<and>
       (\<forall>r\<in>set raw. dom r = set refs) \<and>
       (\<forall>r\<in>set raw. \<forall>k c. r k = Some c \<longrightarrow> (\<exists>tr0 tr3. runTestSuite w s ptd tr0 = (Inr c, tr3))) \<and>
       results' s = Some (table_of raw refs))"
proof (induction suites arbitrary: results tr)
  case Nil
  then show ?case by simp
next
  case (Cons suite rest)
  from Cons.prems obtain raw tr1 tbl where
    rounds: "testRounds w bd ptd suite refs 0 [] tr = (Inr raw, tr1)"
    and med: "computeMedians raw Map.empty refs = Inr tbl"
    and rest: "testSuitesLoop w bd ptd refs (results(suite \<mapsto> tbl)) rest tr1 = (Inr results', tr')"
    by (auto split: prod.splits sum.splits)
  from testRounds_Inr [OF rounds] have raw: "length raw = 3" "\<forall>r\<in>set raw. dom r = set refs"
    and tr1: "tr1 = tr @ concat (replicate 3 (round_events bd ptd suite refs))"
    by auto
  have vals: "\<forall>r\<in>set raw. \<forall>k c. r k = Some c \<longrightarrow> (\<exists>tr0 tr3. runTestSuite w suite ptd tr0 = (Inr c, tr3))"
    using testRounds_values [OF rounds] by simp
  from computeMedians_Inr [OF rounds_all_refs [OF raw(2)], of Map.empty] med
  have tbl: "tbl = table_of raw refs"
    by (auto simp: table_of_def fun_eq_iff)
  note ih = Cons.IH [OF rest]
  have a: "tr' = tr @ concat (map (\<lambda>s. concat (replicate 3 (round_events bd ptd s refs))) (suite # rest))"
    using ih tr1 by simp
  have b: "\<forall>s. s \<notin> set (suite # rest) \<longrightarrow> results' s = results s"
    using ih by simp
  have c: "\<exists>raw tr1 tr2.
       testRounds w bd ptd s refs 0 [] tr1 = (Inr raw, tr2) \<and> length raw = 3 \<and>
       (\<forall>r\<in>set raw. dom r = set refs) \<and>
       (\<forall>r\<in>set raw. \<forall>k c. r k = Some c \<longrightarrow> (\<exists>tr0 tr3. runTestSuite w s ptd tr0 = (Inr c, tr3))) \<and>
       results' s = Some (table_of raw refs)"
    if "s \<in> set (suite # rest)" for s
  proof (cases "s \<in> set rest")
    case True
    with ih show ?thesis by blast
  next
    case False
    with that have s: "s = suite" by simp
    from ih False have "results' s = (results(suite \<mapsto> tbl)) s" by blast
    with s tbl have "results' s = Some (table_of raw refs)" by simp
    with rounds raw vals s show ?thesis by blast
  qed
  from a b c show ?case by blast
qed

subsection \<open>A run in which every step succeeds returns\<close>

lemma runTestSuite_cooperative:
  assumes "cooperative w"
  shows "\<exists>c. runTestSuite w s ptd tr =
    (Inr c, tr @ [Shell (test_command s) (Some ptd), ReadJSON (results_file ptd s)])"
proof -
  from assms obtain raw where
    raw: "json_file w (tr @ [Shell (test_command s) (Some ptd)]) (results_file ptd s) = Some raw"
      "\<forall>k\<in>set metricKeys. raw k \<noteq> None"
    unfolding cooperative_def by blast
  from curateResults_present_fields [OF raw(2)] obtain c where "curateResults raw = Inr c" by blast
  with raw(1) assms show ?thesis
    by (simp add: runTestSuite_def runShellScript_def readJSONFile_def cooperative_def)
qed

lemma testRef_cooperative:
  assumes "cooperative w"
  shows "\<exists>acc' tr'. testRef w bd ptd s acc ref tr = (Inr acc', tr')"
proof -
  from runTestSuite_cooperative [OF assms] obtain c where
    "runTestSuite w s ptd (tr @ [Shell wp_env_start (bd ref)]) =
      (Inr c, (tr @ [Shell wp_env_start (bd ref)]) @ [Shell (test_command s) (Some ptd), ReadJSON (results_file ptd s)])"
    by blast
  with assms show ?thesis
    by (simp add: testRef_def runShellScript_def cooperative_def Let_def)
qed

lemma testRefs_cooperative:
  assumes "cooperative w"
  shows "\<exists>acc' tr'. testRefs w bd ptd s acc refs tr = (Inr acc', tr')"
proof (induction refs arbitrary: acc tr)
  case Nil
  then show ?case by simp
next
  case (Cons ref refs)
  from testRef_cooperative [OF assms] obtain acc1 tr1 where
    "testRef w bd ptd s acc ref tr = (Inr acc1, tr1)" by blast
  with Cons [of acc1 tr1] show ?case by simp
qed

lemma testRounds_cooperative:
  assumes "cooperative w"
  shows "\<exists>raw' tr'. testRounds w bd ptd s refs i raw tr = (Inr raw', tr')"
  using assms
proof (induction w bd ptd s refs i raw tr rule: testRounds.induct)
  case (1 w bd ptd s refs i raw tr)
  show ?case
  proof (cases "i < 3")
    case False
    then show ?thesis by (simp add: testRounds.simps [of _ _ _ _ _ i])
  next
    case True
    from testRefs_cooperative [OF "1.prems"] obtain r tr1 where
      one: "testRefs w bd ptd s Map.empty refs tr = (Inr r, tr1)" by blast
    from "1.IH" [OF True one [symmetric] refl] "1.prems" True one show ?thesis
      by (subst testRounds.simps) simp
  qed
qed

lemma testSuitesLoop_cooperative:
  assumes "cooperative w"
  shows "\<exists>results' tr'. testSuitesLoop w bd ptd refs results suites tr = (Inr results', tr')"
proof (induction suites arbitrary: results tr)
  case Nil
  then show ?case by simp
next
  case (Cons suite rest)
  from testRounds_cooperative [OF assms] obtain raw tr1 where
    rounds: "testRounds w bd ptd suite refs 0 [] tr = (Inr raw, tr1)" by blast
  from testRounds_Inr [OF rounds] have "\<forall>r\<in>set raw. dom r = set refs" by auto
  from computeMedians_Inr [OF rounds_all_refs [OF this]] obtain tbl where
    med: "computeMedians raw Map.empty refs = Inr tbl" by blast
  from Cons [of "results(suite \<mapsto> tbl)" tr1] obtain results' tr' where
    rest: "testSuitesLoop w bd ptd refs (results(suite \<mapsto> tbl)) rest tr1 = (Inr results', tr')"
    by blast
  show ?case by (simp add: rounds med rest)
qed

lemma runTests_cooperative:
  "cooperative w \<Longrightarrow> \<exists>results tr'. runTests w bd ptd refs tr = (Inr results, tr')"
  unfolding runTests_def by (rule testSuitesLoop_cooperative)

lemma cooperative_example_world: "cooperative example_world"
  by (simp add: cooperative_def example_world_def example_raw_def)

lemma test_command_not_stop: "test_command s \<noteq> wp_env_stop"
  by (simp add: test_command_def wp_env_stop_def)

lemma start_not_stop: "wp_env_start \<noteq> wp_env_stop"
  by (simp add: wp_env_start_def wp_env_stop_def)

lemma stop_count_append: "stop_count (xs @ ys) = stop_count xs + stop_count ys"
  by (simp add: stop_count_def)

lemma runTestSuite_no_stop:
  "runTestSuite w s ptd tr = (r, tr2) \<Longrightarrow> stop_count tr2 = stop_count tr"
  by (auto simp: runTestSuite_def runShellScript_def readJSONFile_def stop_count_def
      test_command_not_stop split: if_splits option.splits sum.splits)

subsection \<open>Stopping the environment\<close>

text \<open>
  C1, as amended. For every run of a suite on a ref in which \<open>wp-env start\<close> has
  succeeded: when \<open>runTestSuite\<close> succeeds, \<open>wp-env stop\<close> is invoked exactly
  once for that environment, right after it; when \<open>runTestSuite\<close> fails, its error
  leaves the loop body at once and \<open>wp-env stop\<close> is not invoked.
\<close>

theorem testRef_stop_after_success:
  assumes "shell_ok w tr wp_env_start (branchDirectories ref)"
  shows "case runTestSuite w testSuite performanceTestDirectory
                (tr @ [Shell wp_env_start (branchDirectories ref)]) of
           (Inr curated, tr2) \<Rightarrow>
             snd (testRef w branchDirectories performanceTestDirectory testSuite rawResults_i ref tr)
               = tr2 @ [Shell wp_env_stop (branchDirectories ref)] \<and>
             stop_count (snd (testRef w branchDirectories performanceTestDirectory testSuite
                                rawResults_i ref tr)) = stop_count tr + 1
         | (Inl e, tr2) \<Rightarrow>
             testRef w branchDirectories performanceTestDirectory testSuite rawResults_i ref tr
               = (Inl e, tr2) \<and>
             stop_count tr2 = stop_count tr"
proof -
  obtain r tr2 where rt: "runTestSuite w testSuite performanceTestDirectory
      (tr @ [Shell wp_env_start (branchDirectories ref)]) = (r, tr2)"
    by (cases "runTestSuite w testSuite performanceTestDirectory
      (tr @ [Shell wp_env_start (branchDirectories ref)])")
  from runTestSuite_no_stop [OF rt] have n: "stop_count tr2 = stop_count tr"
    by (simp add: stop_count_append) (simp add: stop_count_def start_not_stop)
  show ?thesis
  proof (cases r)
    case (Inl e)
    with rt assms n show ?thesis
      by (simp add: testRef_def runShellScript_def Let_def)
  next
    case (Inr curated)
    with rt assms n show ?thesis
      by (simp add: testRef_def runShellScript_def Let_def stop_count_append)
         (simp add: stop_count_def)
  qed
qed

theorem testRef_stop_after_success_witness:
  "shell_ok example_world [] wp_env_start (example_dirs ''trunk'') \<and>
   snd (testRef example_world example_dirs ''/tmp/tests'' ''post-editor'' Map.empty ''trunk'' [])
     = execution example_dirs ''/tmp/tests'' ''post-editor'' ''trunk'' \<and>
   stop_count (snd (testRef example_world example_dirs ''/tmp/tests'' ''post-editor'' Map.empty
                      ''trunk'' [])) = 1"
proof -
  have h: "shell_ok example_world [] wp_env_start (example_dirs ''trunk'')"
    by (simp add: example_world_def)
  from runTestSuite_cooperative [OF cooperative_example_world] obtain c where
    rt: "runTestSuite example_world ''post-editor'' ''/tmp/tests''
           ([] @ [Shell wp_env_start (example_dirs ''trunk'')])
         = (Inr c, ([] @ [Shell wp_env_start (example_dirs ''trunk'')]) @
              [Shell (test_command ''post-editor'') (Some ''/tmp/tests''),
               ReadJSON (results_file ''/tmp/tests'' ''post-editor'')])"
    by blast
  from testRef_stop_after_success [where w = example_world and tr = "[]"
      and branchDirectories = example_dirs and ref = "''trunk''" and testSuite = "''post-editor''"
      and performanceTestDirectory = "''/tmp/tests''" and rawResults_i = Map.empty, OF h]
  show ?thesis
    unfolding rt
    by (simp add: h execution_def stop_count_def test_command_not_stop start_not_stop)
qed

text \<open>
  C1 as stated asks for \<open>wp-env stop\<close> also when the test command fails. In the
  world where it fails, the environment of \<open>trunk\<close> is started, the error reaches the
  caller, and the trace ends with the test command: there is no stop.
\<close>

theorem testRef_no_stop_on_failure_counterexample:
  "shell_ok failing_world [] wp_env_start (example_dirs ''trunk'') \<and>
   testRef failing_world example_dirs ''/tmp/tests'' ''post-editor'' Map.empty ''trunk'' []
     = (Inl (ShellScriptFailed (test_command ''post-editor'')),
        [Shell wp_env_start (Some ''/tmp/envs/trunk''),
         Shell (test_command ''post-editor'') (Some ''/tmp/tests'')]) \<and>
   stop_count (snd (testRef failing_world example_dirs ''/tmp/tests'' ''post-editor'' Map.empty
                      ''trunk'' [])) = 0"
proof -
  have a: "shell_ok failing_world tr wp_env_start cwd" for tr cwd
    by (simp add: failing_world_def)
  have b: "\<not> shell_ok failing_world tr (test_command ''post-editor'') cwd" for tr cwd
    by (simp add: failing_world_def test_command_def wp_env_start_def wp_env_stop_def)
  have c: "testRef failing_world example_dirs ''/tmp/tests'' ''post-editor'' Map.empty ''trunk'' []
     = (Inl (ShellScriptFailed (test_command ''post-editor'')),
        [Shell wp_env_start (Some ''/tmp/envs/trunk''),
         Shell (test_command ''post-editor'') (Some ''/tmp/tests'')])"
    by (simp add: testRef_def runTestSuite_def runShellScript_def Let_def a b example_dirs_def)
  show ?thesis
    unfolding c using a by (simp add: stop_count_def test_command_not_stop start_not_stop)
qed

subsection \<open>Which run fills which cell\<close>

lemma suite_events_replicate:
  "suite_events bd ptd refs s = concat (replicate 3 (round_events bd ptd s refs))"
  by (simp add: suite_events_def map_replicate_const)

lemma testRefs_other:
  "testRefs w bd ptd s acc refs tr = (Inr acc', tr') \<Longrightarrow> k \<notin> set refs \<Longrightarrow> acc' k = acc k"
proof (induction refs arbitrary: acc tr)
  case Nil
  then show ?case by simp
next
  case (Cons ref refs)
  from Cons.prems(1) obtain acc1 tr1 where
    one: "testRef w bd ptd s acc ref tr = (Inr acc1, tr1)"
    and rest: "testRefs w bd ptd s acc1 refs tr1 = (Inr acc', tr')"
    by (auto split: prod.splits sum.splits)
  from testRef_Inr [OF one] obtain c where "acc1 = acc(ref \<mapsto> c)" by blast
  with Cons.IH [OF rest] Cons.prems(2) show ?case by simp
qed

lemma testRefs_results:
  "testRefs w bd ptd s acc refs tr = (Inr acc', tr') \<Longrightarrow> distinct refs \<Longrightarrow> j < length refs \<Longrightarrow>
   \<exists>c. acc' (refs ! j) = Some c \<and>
       fst (runTestSuite w s ptd
             (tr @ round_events bd ptd s (take j refs) @ [Shell wp_env_start (bd (refs ! j))]))
         = Inr c"
proof (induction refs arbitrary: acc tr j)
  case Nil
  then show ?case by simp
next
  case (Cons ref refs)
  from Cons.prems(1) obtain acc1 tr1 where
    one: "testRef w bd ptd s acc ref tr = (Inr acc1, tr1)"
    and rest: "testRefs w bd ptd s acc1 refs tr1 = (Inr acc', tr')"
    by (auto split: prod.splits sum.splits)
  from testRef_Inr [OF one] obtain c1 tr2 where
    acc1: "acc1 = acc(ref \<mapsto> c1)" and tr1: "tr1 = tr @ execution bd ptd s ref"
    and rt: "runTestSuite w s ptd (tr @ [Shell wp_env_start (bd ref)]) = (Inr c1, tr2)"
    by blast
  show ?case
  proof (cases j)
    case 0
    from Cons.prems(2) have "ref \<notin> set refs" by simp
    from testRefs_other [OF rest this] acc1 have "acc' ref = Some c1" by simp
    with rt 0 show ?thesis by (simp add: round_events_def)
  next
    case (Suc j')
    with Cons.prems have d: "distinct refs" and j': "j' < length refs" by simp_all
    from Cons.IH [OF rest d j'] obtain c where
      "acc' (refs ! j') = Some c"
      "fst (runTestSuite w s ptd
             (tr1 @ round_events bd ptd s (take j' refs) @ [Shell wp_env_start (bd (refs ! j'))]))
         = Inr c"
      by blast
    with Suc tr1 show ?thesis by (simp add: round_events_def)
  qed
qed

lemma testRounds_results:
  "testRounds w bd ptd s refs i raw tr = (Inr raw', tr') \<Longrightarrow> i \<le> 3 \<Longrightarrow> distinct refs \<Longrightarrow>
   n < 3 - i \<Longrightarrow> j < length refs \<Longrightarrow>
   \<exists>c. (raw' ! (length raw + n)) (refs ! j) = Some c \<and>
       fst (runTestSuite w s ptd
             (tr @ concat (replicate n (round_events bd ptd s refs))
                 @ round_events bd ptd s (take j refs) @ [Shell wp_env_start (bd (refs ! j))]))
         = Inr c"
proof (induction w bd ptd s refs i raw tr arbitrary: n rule: testRounds.induct)
  case (1 w bd ptd s refs i raw tr)
  from "1.prems"(4) have True: "i < 3" by simp
  with "1.prems"(1) obtain r1 tr1 where
    one: "testRefs w bd ptd s Map.empty refs tr = (Inr r1, tr1)"
    and rest: "testRounds w bd ptd s refs (i + 1) (raw @ [r1]) tr1 = (Inr raw', tr')"
    by (subst (asm) testRounds.simps) (auto split: prod.splits sum.splits)
  from testRounds_Inr [OF rest] True obtain rounds where raw': "raw' = (raw @ [r1]) @ rounds"
    by auto
  from testRefs_Inr [OF one] have tr1: "tr1 = tr @ round_events bd ptd s refs" by simp
  show ?case
  proof (cases n)
    case 0
    have "raw' ! (length raw + 0) = r1" by (simp add: raw' nth_append)
    with testRefs_results [OF one "1.prems"(3,5)] 0 show ?thesis by simp
  next
    case (Suc n')
    with "1.prems"(4) have n': "n' < 3 - (i + 1)" by simp
    from True have le: "i + 1 \<le> 3" by simp
    from "1.IH" [OF True one [symmetric] refl rest le "1.prems"(3) n' "1.prems"(5)]
    obtain c where
      "(raw' ! (length (raw @ [r1]) + n')) (refs ! j) = Some c"
      "fst (runTestSuite w s ptd
             (tr1 @ concat (replicate n' (round_events bd ptd s refs))
                 @ round_events bd ptd s (take j refs) @ [Shell wp_env_start (bd (refs ! j))]))
         = Inr c"
      by blast
    with Suc tr1 show ?thesis by simp
  qed
qed

lemma testSuitesLoop_rounds:
  "testSuitesLoop w bd ptd refs results suites tr = (Inr results', tr') \<Longrightarrow> distinct suites \<Longrightarrow>
   m < length suites \<Longrightarrow>
   \<exists>raw tr2.
     testRounds w bd ptd (suites ! m) refs 0 []
       (tr @ concat (map (suite_events bd ptd refs) (take m suites))) = (Inr raw, tr2) \<and>
     results' (suites ! m) = Some (table_of raw refs)"
proof (induction suites arbitrary: results tr m)
  case Nil
  then show ?case by simp
next
  case (Cons suite rest)
  from Cons.prems(1) obtain raw tr1 tbl where
    rounds: "testRounds w bd ptd suite refs 0 [] tr = (Inr raw, tr1)"
    and med: "computeMedians raw Map.empty refs = Inr tbl"
    and rest: "testSuitesLoop w bd ptd refs (results(suite \<mapsto> tbl)) rest tr1 = (Inr results', tr')"
    by (auto split: prod.splits sum.splits)
  from testRounds_Inr [OF rounds] have raw: "\<forall>r\<in>set raw. dom r = set refs"
    and tr1: "tr1 = tr @ suite_events bd ptd refs suite"
    by (auto simp: suite_events_replicate)
  from computeMedians_Inr [OF rounds_all_refs [OF raw], of Map.empty] med
  have tbl: "tbl = table_of raw refs"
    by (auto simp: table_of_def fun_eq_iff)
  show ?case
  proof (cases m)
    case 0
    from Cons.prems(2) have "suite \<notin> set rest" by simp
    with testSuitesLoop_Inr [OF rest] have "results' suite = (results(suite \<mapsto> tbl)) suite"
      by blast
    with rounds tbl 0 show ?thesis by simp
  next
    case (Suc m')
    with Cons.prems have d: "distinct rest" and m': "m' < length rest" by simp_all
    from Cons.IH [OF rest d m'] Suc tr1 show ?thesis by simp
  qed
qed

lemma distinct_testSuites: "distinct testSuites"
  by (simp add: testSuites_def)

subsection \<open>The table of results\<close>

text \<open>
  C4. When step 4 completes, the table \<open>results[ suite ][ ref ]\<close> is there for every
  suite of the fixed list and every ref: no pair is dropped. Its entries come from
  exactly three bundles, the ones the three rounds of the suite stored under the ref,
  each returned by a run of the suite; every metric of the table is \<open>formatTime\<close> of
  the median of the three values of that metric (spelled out for \<open>serverResponse\<close>).
\<close>

theorem runTests_results:
  assumes "runTests w branchDirectories performanceTestDirectory refs tr = (Inr results, tr')"
  shows "\<forall>testSuite\<in>set testSuites. \<forall>ref\<in>set refs.
    \<exists>table rawResults tr1 tr2 c0 c1 c2.
      results testSuite = Some table
      \<and> testRounds w branchDirectories performanceTestDirectory testSuite refs 0 [] tr1
          = (Inr rawResults, tr2)
      \<and> map (\<lambda>r. r ref) rawResults = [Some c0, Some c1, Some c2]
      \<and> (\<forall>c\<in>set [c0, c1, c2].
            \<exists>tr3 tr4. runTestSuite w testSuite performanceTestDirectory tr3 = (Inr c, tr4))
      \<and> table ref = Some (mapValues (\<lambda>vs. formatTime (median vs)) (per_metric [c0, c1, c2]))
      \<and> serverResponse (the (table ref))
          = formatTime (median [serverResponse c0, serverResponse c1, serverResponse c2])"
proof (intro ballI)
  fix testSuite ref
  assume s: "testSuite \<in> set testSuites" and ref: "ref \<in> set refs"
  from assms have loop: "testSuitesLoop w branchDirectories performanceTestDirectory refs
      Map.empty testSuites tr = (Inr results, tr')"
    by (simp add: runTests_def)
  from testSuitesLoop_Inr [OF loop, THEN conjunct2, THEN conjunct2, rule_format, OF s]
  obtain raw where "\<exists>tr1 tr2.
       testRounds w branchDirectories performanceTestDirectory testSuite refs 0 [] tr1 = (Inr raw, tr2) \<and>
       length raw = 3 \<and> (\<forall>r\<in>set raw. dom r = set refs) \<and>
       (\<forall>r\<in>set raw. \<forall>k c. r k = Some c \<longrightarrow>
          (\<exists>tr0 tr3. runTestSuite w testSuite performanceTestDirectory tr0 = (Inr c, tr3))) \<and>
       results testSuite = Some (table_of raw refs)" ..
  then obtain tr1 where "\<exists>tr2.
       testRounds w branchDirectories performanceTestDirectory testSuite refs 0 [] tr1 = (Inr raw, tr2) \<and>
       length raw = 3 \<and> (\<forall>r\<in>set raw. dom r = set refs) \<and>
       (\<forall>r\<in>set raw. \<forall>k c. r k = Some c \<longrightarrow>
          (\<exists>tr0 tr3. runTestSuite w testSuite performanceTestDirectory tr0 = (Inr c, tr3))) \<and>
       results testSuite = Some (table_of raw refs)" ..
  then obtain tr2 where all:
      "testRounds w branchDirectories performanceTestDirectory testSuite refs 0 [] tr1 = (Inr raw, tr2) \<and>
       length raw = 3 \<and> (\<forall>r\<in>set raw. dom r = set refs) \<and>
       (\<forall>r\<in>set raw. \<forall>k c. r k = Some c \<longrightarrow>
          (\<exists>tr0 tr3. runTestSuite w testSuite performanceTestDirectory tr0 = (Inr c, tr3))) \<and>
       results testSuite = Some (table_of raw refs)" ..
  note rounds = all [THEN conjunct1]
    and len = all [THEN conjunct2, THEN conjunct1]
    and doms = all [THEN conjunct2, THEN conjunct2, THEN conjunct1]
    and vals = all [THEN conjunct2, THEN conjunct2, THEN conjunct2, THEN conjunct1]
    and res = all [THEN conjunct2, THEN conjunct2, THEN conjunct2, THEN conjunct2]
  from len obtain r0 r1 r2 where raw: "raw = [r0, r1, r2]"
    by (auto simp: length_Suc_conv numeral_3_eq_3)
  from doms ref raw have "ref \<in> dom r0" "ref \<in> dom r1" "ref \<in> dom r2"
    by simp_all
  then obtain c0 c1 c2 where cs: "r0 ref = Some c0" "r1 ref = Some c1" "r2 ref = Some c2"
    by (auto simp: dom_def)
  have prov: "\<forall>c\<in>set [c0, c1, c2].
      \<exists>tr3 tr4. runTestSuite w testSuite performanceTestDirectory tr3 = (Inr c, tr4)"
  proof
    fix c assume "c \<in> set [c0, c1, c2]"
    then consider "c = c0" | "c = c1" | "c = c2" by auto
    then show "\<exists>tr3 tr4. runTestSuite w testSuite performanceTestDirectory tr3 = (Inr c, tr4)"
    proof cases
      case 1
      with vals [rule_format, of r0 ref c0] raw cs show ?thesis by simp
    next
      case 2
      with vals [rule_format, of r1 ref c1] raw cs show ?thesis by simp
    next
      case 3
      with vals [rule_format, of r2 ref c2] raw cs show ?thesis by simp
    qed
  qed
  have tbl: "table_of raw refs ref
      = Some (mapValues (\<lambda>vs. formatTime (median vs)) (per_metric [c0, c1, c2]))"
    using ref by (simp add: table_of_def raw cs)
  have sr: "serverResponse (the (table_of raw refs ref))
      = formatTime (median [serverResponse c0, serverResponse c1, serverResponse c2])"
    unfolding tbl by (simp add: mapValues_def per_metric_def)
  have m: "map (\<lambda>r. r ref) raw = [Some c0, Some c1, Some c2]"
    by (simp add: raw cs)
  show "\<exists>table rawResults tr1 tr2 c0 c1 c2.
      results testSuite = Some table
      \<and> testRounds w branchDirectories performanceTestDirectory testSuite refs 0 [] tr1
          = (Inr rawResults, tr2)
      \<and> map (\<lambda>r. r ref) rawResults = [Some c0, Some c1, Some c2]
      \<and> (\<forall>c\<in>set [c0, c1, c2].
            \<exists>tr3 tr4. runTestSuite w testSuite performanceTestDirectory tr3 = (Inr c, tr4))
      \<and> table ref = Some (mapValues (\<lambda>vs. formatTime (median vs)) (per_metric [c0, c1, c2]))
      \<and> serverResponse (the (table ref))
          = formatTime (median [serverResponse c0, serverResponse c1, serverResponse c2])"
    by (rule exI [of _ "table_of raw refs"], rule exI [of _ raw], rule exI [of _ tr1],
        rule exI [of _ tr2], rule exI [of _ c0], rule exI [of _ c1], rule exI [of _ c2])
       (intro conjI res rounds m prov tbl sr)
qed

subsection \<open>The order of the runs\<close>

text \<open>
  C5. When step 4 completes, what it has done is, for each suite of the list in order,
  three rounds, and in each round one run of the suite per ref, in the order of
  \<open>refs\<close>, the same in every round. For each suite the array \<open>rawResults\<close> has
  three objects, each with exactly the refs as keys; when the refs are pairwise
  different, the bundle under ref \<open>j\<close> of round \<open>i\<close> is the one that the run of
  the suite at that place of the schedule returned.
\<close>

theorem runTests_schedule:
  assumes "runTests w branchDirectories performanceTestDirectory refs tr = (Inr results, tr')"
  shows "tr' = tr @ concat (map (\<lambda>testSuite.
                  concat (map (\<lambda>i.
                    concat (map (\<lambda>ref.
                      execution branchDirectories performanceTestDirectory testSuite ref) refs))
                    [0..<3]))
                  testSuites)
    \<and> (\<forall>m<length testSuites. \<exists>rawResults tr2.
          testRounds w branchDirectories performanceTestDirectory (testSuites ! m) refs 0 []
            (tr @ concat (map (suite_events branchDirectories performanceTestDirectory refs)
                            (take m testSuites)))
            = (Inr rawResults, tr2)
          \<and> length rawResults = 3
          \<and> (\<forall>i<3. dom (rawResults ! i) = set refs
                \<and> (distinct refs \<longrightarrow> (\<forall>j<length refs. \<exists>c.
                      (rawResults ! i) (refs ! j) = Some c
                      \<and> fst (runTestSuite w (testSuites ! m) performanceTestDirectory
                              (tr @ events_before branchDirectories performanceTestDirectory
                                     refs testSuites m i j)) = Inr c))))"
proof (intro conjI allI impI)
  from assms have loop: "testSuitesLoop w branchDirectories performanceTestDirectory refs
      Map.empty testSuites tr = (Inr results, tr')"
    by (simp add: runTests_def)
  from testSuitesLoop_Inr [OF loop]
  have "tr' = tr @ concat (map (\<lambda>s. concat (replicate 3
      (round_events branchDirectories performanceTestDirectory s refs))) testSuites)"
    by blast
  then show "tr' = tr @ concat (map (\<lambda>testSuite.
                  concat (map (\<lambda>i.
                    concat (map (\<lambda>ref.
                      execution branchDirectories performanceTestDirectory testSuite ref) refs))
                    [0..<3]))
                  testSuites)"
    by (simp add: round_events_def map_replicate_const)
  fix m assume m: "m < length testSuites"
  from testSuitesLoop_rounds [OF loop distinct_testSuites m] obtain raw tr2 where
    rounds: "testRounds w branchDirectories performanceTestDirectory (testSuites ! m) refs 0 []
            (tr @ concat (map (suite_events branchDirectories performanceTestDirectory refs)
                            (take m testSuites)))
            = (Inr raw, tr2)"
    by blast
  from testRounds_Inr [OF rounds] have len: "length raw = 3"
    and doms: "\<forall>r\<in>set raw. dom r = set refs"
    by auto
  have each: "dom (raw ! i) = set refs
                \<and> (distinct refs \<longrightarrow> (\<forall>j<length refs. \<exists>c.
                      (raw ! i) (refs ! j) = Some c
                      \<and> fst (runTestSuite w (testSuites ! m) performanceTestDirectory
                              (tr @ events_before branchDirectories performanceTestDirectory
                                     refs testSuites m i j)) = Inr c))" if i: "i < 3" for i
  proof (intro conjI impI allI)
    from i len doms show "dom (raw ! i) = set refs" by simp
    fix j assume d: "distinct refs" and j: "j < length refs"
    from i have i': "i < 3 - 0" by simp
    from testRounds_results [OF rounds _ d i' j]
    show "\<exists>c. (raw ! i) (refs ! j) = Some c
                      \<and> fst (runTestSuite w (testSuites ! m) performanceTestDirectory
                              (tr @ events_before branchDirectories performanceTestDirectory
                                     refs testSuites m i j)) = Inr c"
      by (simp add: events_before_def)
  qed
  show "\<exists>rawResults tr2.
          testRounds w branchDirectories performanceTestDirectory (testSuites ! m) refs 0 []
            (tr @ concat (map (suite_events branchDirectories performanceTestDirectory refs)
                            (take m testSuites)))
            = (Inr rawResults, tr2)
          \<and> length rawResults = 3
          \<and> (\<forall>i<3. dom (rawResults ! i) = set refs
                \<and> (distinct refs \<longrightarrow> (\<forall>j<length refs. \<exists>c.
                      (rawResults ! i) (refs ! j) = Some c
                      \<and> fst (runTestSuite w (testSuites ! m) performanceTestDirectory
                              (tr @ events_before branchDirectories performanceTestDirectory
                                     refs testSuites m i j)) = Inr c)))"
    by (rule exI [of _ raw], rule exI [of _ tr2]) (intro conjI rounds len allI impI each)
qed

subsection \<open>The example world\<close>

lemma curateResults_example_raw: "curateResults example_raw = Inr example_curated"
proof -
  have h: "\<forall>k\<in>set metricKeys. example_raw k \<noteq> None"
    by (simp add: example_raw_def)
  have v: "the (example_raw k) = [10, 20, 30]" if "k \<in> set metricKeys" for k
    using that by (simp add: example_raw_def)
  note vs = in_metricKeys [THEN v]
  have m: "average (map Fin [10, 20, 30]) = Fin 20" "Math_min (map Fin [10, 20, 30]) = Fin 10"
    "Math_max (map Fin [10, 20, 30]) = Fin 30"
    by (simp_all add: average_def Math_min_def Math_max_def round64_values)
  show ?thesis
    unfolding curateResults_present [OF h] vs m example_curated_def ..
qed

lemma runTestSuite_example_world:
  "runTestSuite example_world s ptd tr0 = (Inr c, tr1) \<Longrightarrow> c = example_curated"
  by (simp add: runTestSuite_def runShellScript_def readJSONFile_def example_world_def
      curateResults_example_raw)

lemma median_same: "median [Fin a, Fin a, Fin a] = Fin a"
  by (simp add: median_def js_sort_def comparefn_def js_sub_def js_index_def)

lemma table_example_curated:
  "mapValues (\<lambda>vs. formatTime (median vs)) (per_metric [example_curated, example_curated, example_curated])
   = example_curated"
  by (simp add: mapValues_def per_metric_def example_curated_def median_same formatTime_values)

theorem runTests_results_witness:
  "\<exists>results tr'.
     runTests example_world example_dirs ''/tmp/tests'' [''trunk'', ''feature-x''] []
       = (Inr results, tr') \<and>
     (\<exists>table. results ''post-editor'' = Some table \<and> table ''trunk'' = Some example_curated)"
proof -
  from runTests_cooperative [OF cooperative_example_world] obtain results tr' where
    run: "runTests example_world example_dirs ''/tmp/tests'' [''trunk'', ''feature-x''] []
       = (Inr results, tr')"
    by blast
  have s: "''post-editor'' \<in> set testSuites" by (simp add: testSuites_def)
  have r: "''trunk'' \<in> set [''trunk'', ''feature-x'']" by simp
  from runTests_results [OF run, rule_format, OF s r]
  obtain table c0 c1 c2 where t: "results ''post-editor'' = Some table"
    and prov: "\<forall>c\<in>set [c0, c1, c2].
        \<exists>tr3 tr4. runTestSuite example_world ''post-editor'' ''/tmp/tests'' tr3 = (Inr c, tr4)"
    and tbl: "table ''trunk''
        = Some (mapValues (\<lambda>vs. formatTime (median vs)) (per_metric [c0, c1, c2]))"
    by (elim exE conjE)
  from prov have "c0 = example_curated" "c1 = example_curated" "c2 = example_curated"
    by (auto dest: runTestSuite_example_world)
  with tbl have "table ''trunk'' = Some example_curated"
    by (simp only: table_example_curated)
  with run t show ?thesis by blast
qed

theorem runTests_schedule_witness:
  "\<exists>results tr'.
     runTests example_world example_dirs ''/tmp/tests'' [''trunk'', ''feature-x''] []
       = (Inr results, tr') \<and>
     length tr' = 48 \<and>
     take 8 tr' = execution example_dirs ''/tmp/tests'' ''post-editor'' ''trunk''
                  @ execution example_dirs ''/tmp/tests'' ''post-editor'' ''feature-x'' \<and>
     take 8 (drop 8 tr') = take 8 tr'"
proof -
  from runTests_cooperative [OF cooperative_example_world] obtain results tr' where
    run: "runTests example_world example_dirs ''/tmp/tests'' [''trunk'', ''feature-x''] []
       = (Inr results, tr')"
    by blast
  from runTests_schedule [OF run, THEN conjunct1]
  have tr': "tr' = [] @ concat (map (\<lambda>testSuite.
                  concat (map (\<lambda>i.
                    concat (map (\<lambda>ref.
                      execution example_dirs ''/tmp/tests'' testSuite ref) [''trunk'', ''feature-x'']))
                    [0..<3]))
                  testSuites)" .
  have "length tr' = 48 \<and>
     take 8 tr' = execution example_dirs ''/tmp/tests'' ''post-editor'' ''trunk''
                  @ execution example_dirs ''/tmp/tests'' ''post-editor'' ''feature-x'' \<and>
     take 8 (drop 8 tr') = take 8 tr'"
    unfolding tr' by (simp add: testSuites_def execution_def upt_rec)
  with run show ?thesis by blast
qed

subsection \<open>The version of the base install\<close>

lemma is_digit_simps [simp]:
  "is_digit CHR ''0''" "is_digit CHR ''1''" "is_digit CHR ''2''" "is_digit CHR ''3''"
  "is_digit CHR ''4''" "is_digit CHR ''5''" "is_digit CHR ''6''" "is_digit CHR ''7''"
  "is_digit CHR ''8''" "is_digit CHR ''9''" "\<not> is_digit CHR ''.''"
  by (simp_all add: is_digit_def)

lemma zipVersion_examples:
  "zipVersion ''5.7'' = ''5.7''" "zipVersion ''5.7.0'' = ''5.7''" "zipVersion ''5.7.2'' = ''5.7.2''"
  "zipVersion ''6.1.0'' = ''6.1''" "zipVersion ''6.1.2'' = ''6.1.2''"
  "zipVersion ''6.100.2'' = ''6.1.2''" "zipVersion ''6.1.05'' = ''6.15''"
  by (simp_all add: zipVersion_def is_line_terminator_def)

text \<open>
  C9. The version \<open>6.1.0\<close> gives the URL of \<open>wordpress-6.1.zip\<close> and \<open>6.1.2\<close>
  the one of \<open>wordpress-6.1.2.zip\<close>. The patch version of \<open>6.100.2\<close> is not
  \<open>0\<close>, and yet the version is rewritten: the unescaped dot of the pattern matches
  the second digit of the minor version, and \<open>core\<close> becomes the URL of
  \<open>wordpress-6.1.2.zip\<close>.
\<close>

theorem zipVersion_three_digit_minor:
  "zipUrl ''6.1.0'' = ''https://wordpress.org/wordpress-6.1.zip''
   \<and> zipUrl ''6.1.2'' = ''https://wordpress.org/wordpress-6.1.2.zip''
   \<and> zipUrl ''6.100.2'' = ''https://wordpress.org/wordpress-6.1.2.zip''
   \<and> patch_wp_env \<lparr>ci = None, testsBranch = None, wpVersion = Some ''6.100.2''\<rparr> conf ''core''
       = Some (JString ''https://wordpress.org/wordpress-6.1.2.zip'')"
  by (simp add: zipUrl_def patch_wp_env_def zipVersion_examples)

subsection \<open>The check on the refs\<close>

text \<open>
  C2. With one branch given outside CI, and with none (the default \<open>trunk\<close>), the
  check lets the single ref through: no error is thrown. The check \<open>refs.length <= 0\<close>
  never throws at all, whatever the environment and the branches.
\<close>

theorem resolveRefs_single_ref:
  "resolveRefs \<lparr>CI = None, GITHUB_SHA = None, GITHUB_BASE_REF = None\<rparr> [''trunk'']
     = Inr [Some ''trunk'']
   \<and> resolveRefs \<lparr>CI = None, GITHUB_SHA = None, GITHUB_BASE_REF = None\<rparr> [] = Inr [Some ''trunk'']
   \<and> (\<forall>env branches. \<exists>refs. resolveRefs env branches = Inr refs \<and> refs \<noteq> [])"
  by (auto simp: resolveRefs_def truthy_def Let_def)

end
